theory Spec2Isabelle
  imports Complex_Main "HOL-Library.Sublist"
begin

section \<open>Values, exceptions and the external capabilities\<close>

text \<open>
  The evaluators read two JSON files with \<^verbatim>\<open>json.load\<close>.  A loaded value is a
  \<open>json\<close>; a loaded object is an association list in the order of the file (Python
  dictionaries keep insertion order, and a loaded object has distinct keys).
  A string is a list of characters with code points below 256; on these the
  string functions below agree with Python's \<^verbatim>\<open>str\<close> methods.  Python floats
  are idealised as reals.
\<close>

datatype json =
    JNull
  | JBool bool
  | JNum real
  | JStr string
  | JList "json list"
  | JObj "(string \<times> json) list"

text \<open>The exceptions the modelled code can raise; \<open>ExternalError\<close> stands for
  whatever an external capability (chat completion, classifier, metric library) raises.\<close>

datatype exn = KeyError | IndexError | TypeError | AttributeError | StopIteration | ExternalError

text \<open>The three f-measures of \<^verbatim>\<open>rouge.score(target, prediction)\<close>.\<close>

record rouge_scores =
  rouge1 :: real
  rouge2 :: real
  rougeL :: real

text \<open>
  What the source imports and calls but does not define: Python's \<^verbatim>\<open>str()\<close>
  on a value that is not a string, the chat-completion call (model, prompt), the
  text-classification pipeline, and the ROUGE and BLEU library functions.  Each may raise.
\<close>

record env =
  py_str :: "json \<Rightarrow> string"
  chat_completion :: "string \<Rightarrow> string \<Rightarrow> exn + json"
  nli_model :: "string \<Rightarrow> exn + json"
  rouge_score :: "json \<Rightarrow> string \<Rightarrow> exn + rouge_scores"
  sentence_bleu :: "string list list \<Rightarrow> string list \<Rightarrow> exn + real"
  sentence_bleu_smooth :: "string list list \<Rightarrow> string list \<Rightarrow> exn + real"

section \<open>Python string operations\<close>

text \<open>\<^verbatim>\<open>sub in s\<close> on strings: \<open>sub\<close> occurs in \<open>s\<close> as a contiguous piece.\<close>

fun py_in :: "string \<Rightarrow> string \<Rightarrow> bool" where
  "py_in sub [] = (sub = [])"
| "py_in sub (c # cs) = (prefix sub (c # cs) \<or> py_in sub cs)"

text \<open>\<^verbatim>\<open>str.isspace\<close> and the regular expression class \<^verbatim>\<open>\s\<close> on one character.\<close>

definition py_isspace :: "char \<Rightarrow> bool" where
  "py_isspace c = (c \<in> {CHR 0x09, CHR 0x0A, CHR 0x0B, CHR 0x0C, CHR 0x0D,
                         CHR 0x1C, CHR 0x1D, CHR 0x1E, CHR 0x1F, CHR 0x20, CHR 0x85, CHR 0xA0})"

text \<open>The regular expression class \<^verbatim>\<open>\d\<close> on one character: the code points
  48..57 are the decimal digits below 256.\<close>

definition py_isdigit :: "char \<Rightarrow> bool" where
  "py_isdigit c = (let n = (of_char c :: nat) in 48 \<le> n \<and> n \<le> 57)"

text \<open>\<^verbatim>\<open>str.lower\<close>: the upper-case letters are the code points 65..90 and
  192..222 without 215; lowering adds 32, that is, sets bit 5.\<close>

definition is_upper :: "char \<Rightarrow> bool" where
  "is_upper c = (let n = (of_char c :: nat) in
     (65 \<le> n \<and> n \<le> 90) \<or> (192 \<le> n \<and> n \<le> 222 \<and> n \<noteq> 215))"

definition lower_char :: "char \<Rightarrow> char" where
  "lower_char c = (if is_upper c
     then (case c of Char b0 b1 b2 b3 b4 b5 b6 b7 \<Rightarrow> Char b0 b1 b2 b3 b4 True b6 b7)
     else c)"

definition py_lower :: "string \<Rightarrow> string" where
  "py_lower s = map lower_char s"

text \<open>\<^verbatim>\<open>str.strip()\<close>.\<close>

definition py_strip :: "string \<Rightarrow> string" where
  "py_strip s = rev (dropWhile py_isspace (rev (dropWhile py_isspace s)))"

text \<open>\<^verbatim>\<open>str.split()\<close> with no argument: the maximal pieces without white space;
  \<open>w\<close> is the piece being read.\<close>

fun split_from :: "string \<Rightarrow> string \<Rightarrow> string list" where
  "split_from w [] = (if w = [] then [] else [w])"
| "split_from w (c # cs) =
     (if py_isspace c then (if w = [] then split_from [] cs else w # split_from [] cs)
      else split_from (w @ [c]) cs)"

definition py_split :: "string \<Rightarrow> string list" where
  "py_split s = split_from [] s"

text \<open>\<^verbatim>\<open>sep.join(xs)\<close> on a list of strings.\<close>

fun py_join :: "string \<Rightarrow> string list \<Rightarrow> string" where
  "py_join sep [] = []"
| "py_join sep [x] = x"
| "py_join sep (x # y # ys) = x @ sep @ py_join sep (y # ys)"

text \<open>The text after a literal prefix, if the string starts with it.\<close>

fun after_prefix :: "string \<Rightarrow> string \<Rightarrow> string option" where
  "after_prefix [] s = Some s"
| "after_prefix (p # ps) [] = None"
| "after_prefix (p # ps) (c # cs) = (if p = c then after_prefix ps cs else None)"

section \<open>The text normalizer (evaluate\_lotnlg.py, clean\_prediction\_text)\<close>

text \<open>
  Each \<^verbatim>\<open>re.sub\<close> and \<^verbatim>\<open>re.findall\<close> scans the text from the left; at a
  position where the pattern matches, the match is consumed and the scan goes on behind
  it; elsewhere the character is kept and the scan moves one character on.  Each
  \<open>match_\<close> function below is the pattern anchored at the start of its argument and
  returns what follows the match.  None of the patterns matches the empty string.

  \<^verbatim>\<open>##\s+\<close>: two hash signs and the longest run of white space, at least one.
\<close>

fun match_header :: "string \<Rightarrow> string option" where
  "match_header (a # b # w # rest) =
     (if a = CHR ''#'' \<and> b = CHR ''#'' \<and> py_isspace w
      then Some (dropWhile py_isspace rest) else None)"
| "match_header _ = None"

text \<open>
  \<^verbatim>\<open>Claim \d+[^:]*:\s*([^\.]+\.)\<close>: the literal, at least one digit, everything up
  to the first colon, the colon, white space, and the group: at least one character
  other than a period, then the first period.  When the white space is directly followed
  by a period, the greedy \<^verbatim>\<open>\s*\<close> gives back its last character to the group.
  The result is the group and the text behind the match.
\<close>

definition match_claim :: "string \<Rightarrow> (string \<times> string) option" where
  "match_claim s =
     (case after_prefix ''Claim '' s of
        None \<Rightarrow> None
      | Some r1 \<Rightarrow>
          if takeWhile py_isdigit r1 = [] then None
          else (case dropWhile (\<lambda>c. c \<noteq> CHR '':'') (dropWhile py_isdigit r1) of
                  [] \<Rightarrow> None
                | colon # r2 \<Rightarrow>
                    let ws = takeWhile py_isspace r2;
                        r3 = dropWhile py_isspace r2;
                        body = takeWhile (\<lambda>c. c \<noteq> CHR ''.'') r3
                    in (case dropWhile (\<lambda>c. c \<noteq> CHR ''.'') r3 of
                          [] \<Rightarrow> None
                        | period # r4 \<Rightarrow>
                            if body \<noteq> [] then Some (body @ ''.'', r4)
                            else if ws \<noteq> [] then Some ([last ws] @ ''.'', r4)
                            else None)))"

text \<open>\<^verbatim>\<open>Reasoning[^:]*:[^\.]+\.\<close>: the literal, everything up to the first colon,
  the colon, at least one character other than a period, then the first period.\<close>

definition match_reasoning :: "string \<Rightarrow> string option" where
  "match_reasoning s =
     (case after_prefix ''Reasoning'' s of
        None \<Rightarrow> None
      | Some r1 \<Rightarrow>
          (case dropWhile (\<lambda>c. c \<noteq> CHR '':'') r1 of
             [] \<Rightarrow> None
           | colon # r2 \<Rightarrow>
               (case dropWhile (\<lambda>c. c \<noteq> CHR ''.'') r2 of
                  [] \<Rightarrow> None
                | period # r3 \<Rightarrow>
                    if takeWhile (\<lambda>c. c \<noteq> CHR ''.'') r2 \<noteq> [] then Some r3 else None)))"

text \<open>\<^verbatim>\<open>\*\*([^\*]+)\*\*\<close>: two stars, at least one character other than a star,
  two stars.  The result is the group and the text behind the match.\<close>

definition match_bold :: "string \<Rightarrow> (string \<times> string) option" where
  "match_bold s =
     (case after_prefix ''**'' s of
        None \<Rightarrow> None
      | Some r1 \<Rightarrow>
          (case after_prefix ''**'' (dropWhile (\<lambda>c. c \<noteq> CHR ''*'') r1) of
             None \<Rightarrow> None
           | Some r2 \<Rightarrow>
               if takeWhile (\<lambda>c. c \<noteq> CHR ''*'') r1 \<noteq> [] then
                 Some (takeWhile (\<lambda>c. c \<noteq> CHR ''*'') r1, r2)
               else None))"

lemma after_prefix_length:
  "after_prefix p s = Some r \<Longrightarrow> length r + length p = length s"
  by (induction p s rule: after_prefix.induct) (auto split: if_splits)

lemma match_header_shorter:
  "match_header s = Some r \<Longrightarrow> length r < length s"
proof (induction s rule: match_header.induct)
  case (1 a b w rest)
  have "length (dropWhile py_isspace rest) \<le> length rest"
    by (rule length_dropWhile_le)
  with 1 show ?case by (auto split: if_splits)
qed simp_all

lemma match_claim_shorter:
  assumes "match_claim s = Some (g, r)"
  shows "length r < length s"
proof -
  from assms obtain r1 colon r2 period
    where r1: "after_prefix ''Claim '' s = Some r1"
      and r2: "dropWhile (\<lambda>c. c \<noteq> CHR '':'') (dropWhile py_isdigit r1) = colon # r2"
      and r4: "dropWhile (\<lambda>c. c \<noteq> CHR ''.'') (dropWhile py_isspace r2) = period # r"
    by (auto simp: match_claim_def Let_def split: option.splits if_splits list.splits)
  have "length (colon # r2) \<le> length r1"
    unfolding r2 [symmetric]
    by (meson length_dropWhile_le order_trans)
  moreover have "length (period # r) \<le> length r2"
    unfolding r4 [symmetric]
    by (meson length_dropWhile_le order_trans)
  moreover have "length r1 \<le> length s"
    using after_prefix_length [OF r1] by simp
  ultimately show ?thesis by simp
qed

lemma match_reasoning_shorter:
  assumes "match_reasoning s = Some r"
  shows "length r < length s"
proof -
  from assms obtain r1 colon r2 period
    where r1: "after_prefix ''Reasoning'' s = Some r1"
      and r2: "dropWhile (\<lambda>c. c \<noteq> CHR '':'') r1 = colon # r2"
      and r3: "dropWhile (\<lambda>c. c \<noteq> CHR ''.'') r2 = period # r"
    by (auto simp: match_reasoning_def split: option.splits if_splits list.splits)
  have "length (colon # r2) \<le> length r1"
    unfolding r2 [symmetric] by (rule length_dropWhile_le)
  moreover have "length (period # r) \<le> length r2"
    unfolding r3 [symmetric] by (rule length_dropWhile_le)
  moreover have "length r1 \<le> length s"
    using after_prefix_length [OF r1] by simp
  ultimately show ?thesis by simp
qed

lemma match_bold_shorter:
  assumes "match_bold s = Some (g, r)"
  shows "length r < length s"
proof -
  from assms obtain r1
    where r1: "after_prefix ''**'' s = Some r1"
      and r2: "after_prefix ''**'' (dropWhile (\<lambda>c. c \<noteq> CHR ''*'') r1) = Some r"
    by (auto simp: match_bold_def split: option.splits if_splits)
  have "length r \<le> length (dropWhile (\<lambda>c. c \<noteq> CHR ''*'') r1)"
    using after_prefix_length [OF r2] by simp
  moreover have "length (dropWhile (\<lambda>c. c \<noteq> CHR ''*'') r1) \<le> length r1"
    by (rule length_dropWhile_le)
  moreover have "length r1 < length s"
    using after_prefix_length [OF r1] by simp
  ultimately show ?thesis by simp
qed

text \<open>\<^verbatim>\<open>re.sub(r'##\s+', '', pred_text)\<close>\<close>

function sub_headers :: "string \<Rightarrow> string" where
  "sub_headers [] = []"
| "sub_headers (c # cs) =
     (case match_header (c # cs) of
        Some rest \<Rightarrow> sub_headers rest
      | None \<Rightarrow> c # sub_headers cs)"
  by pat_completeness auto
termination
  by (relation "measure length") (auto dest: match_header_shorter)

text \<open>\<^verbatim>\<open>re.findall(r'Claim \d+[^:]*:\s*([^\.]+\.)', pred_text)\<close>\<close>

function findall_claims :: "string \<Rightarrow> string list" where
  "findall_claims [] = []"
| "findall_claims (c # cs) =
     (case match_claim (c # cs) of
        Some (claim, rest) \<Rightarrow> claim # findall_claims rest
      | None \<Rightarrow> findall_claims cs)"
  by pat_completeness auto
termination
  by (relation "measure length") (auto dest: match_claim_shorter)

text \<open>\<^verbatim>\<open>re.sub(r'Reasoning[^:]*:[^\.]+\.', '', pred_text)\<close>\<close>

function sub_reasoning :: "string \<Rightarrow> string" where
  "sub_reasoning [] = []"
| "sub_reasoning (c # cs) =
     (case match_reasoning (c # cs) of
        Some rest \<Rightarrow> sub_reasoning rest
      | None \<Rightarrow> c # sub_reasoning cs)"
  by pat_completeness auto
termination
  by (relation "measure length") (auto dest: match_reasoning_shorter)

text \<open>\<^verbatim>\<open>re.sub(r'\*\*([^\*]+)\*\*', r'\1', pred_text)\<close>\<close>

function sub_bold :: "string \<Rightarrow> string" where
  "sub_bold [] = []"
| "sub_bold (c # cs) =
     (case match_bold (c # cs) of
        Some (body, rest) \<Rightarrow> body @ sub_bold rest
      | None \<Rightarrow> c # sub_bold cs)"
  by pat_completeness auto
termination
  by (relation "measure length") (auto dest: match_bold_shorter)

definition clean_prediction_text :: "string \<Rightarrow> string" where
  "clean_prediction_text pred_text =
     (let t1 = sub_headers pred_text;
          claims = findall_claims t1;
          t2 = (if claims \<noteq> [] then py_join '' '' claims else t1);
          t3 = sub_reasoning t2;
          t4 = sub_bold t3
      in py_join '' '' (py_split t4))"

section \<open>Operations on loaded values\<close>

definition bind_exn :: "exn + 'a \<Rightarrow> ('a \<Rightarrow> exn + 'b) \<Rightarrow> exn + 'b" where
  "bind_exn m f = (case m of Inl e \<Rightarrow> Inl e | Inr x \<Rightarrow> f x)"

text \<open>\<^verbatim>\<open>v[key]\<close> with a string key.\<close>

fun py_getitem :: "json \<Rightarrow> string \<Rightarrow> exn + json" where
  "py_getitem (JObj kvs) k = (case map_of kvs k of Some v \<Rightarrow> Inr v | None \<Rightarrow> Inl KeyError)"
| "py_getitem _ k = Inl TypeError"

text \<open>\<^verbatim>\<open>v[0]\<close>.\<close>

fun py_first :: "json \<Rightarrow> exn + json" where
  "py_first (JList xs) = (case xs of [] \<Rightarrow> Inl IndexError | x # _ \<Rightarrow> Inr x)"
| "py_first (JStr s) = (case s of [] \<Rightarrow> Inl IndexError | c # _ \<Rightarrow> Inr (JStr [c]))"
| "py_first (JObj kvs) = Inl KeyError"
| "py_first _ = Inl TypeError"

text \<open>\<^verbatim>\<open>v.get(key, default)\<close>: only a dictionary has the method.\<close>

fun py_get :: "json \<Rightarrow> string \<Rightarrow> json \<Rightarrow> exn + json" where
  "py_get (JObj kvs) k d = Inr (case map_of kvs k of Some v \<Rightarrow> v | None \<Rightarrow> d)"
| "py_get _ k d = Inl AttributeError"

text \<open>\<^verbatim>\<open>key in v\<close> with a string key.\<close>

fun py_contains :: "string \<Rightarrow> json \<Rightarrow> exn + bool" where
  "py_contains k (JObj kvs) = Inr (map_of kvs k \<noteq> None)"
| "py_contains k (JStr s) = Inr (py_in k s)"
| "py_contains k (JList xs) = Inr (List.member xs (JStr k))"
| "py_contains k _ = Inl TypeError"

text \<open>The truth value of \<^verbatim>\<open>if v:\<close>.\<close>

fun truthy :: "json \<Rightarrow> bool" where
  "truthy JNull = False"
| "truthy (JBool b) = b"
| "truthy (JNum x) = (x \<noteq> 0)"
| "truthy (JStr s) = (s \<noteq> [])"
| "truthy (JList xs) = (xs \<noteq> [])"
| "truthy (JObj kvs) = (kvs \<noteq> [])"

text \<open>A list or a dictionary cannot be a dictionary key.\<close>

fun hashable :: "json \<Rightarrow> bool" where
  "hashable (JList xs) = False"
| "hashable (JObj kvs) = False"
| "hashable _ = True"

text \<open>\<^verbatim>\<open>v[:n]\<close>: a string or a list can be sliced.\<close>

fun py_slice :: "nat \<Rightarrow> json \<Rightarrow> exn + json" where
  "py_slice n (JStr s) = Inr (JStr (take n s))"
| "py_slice n (JList xs) = Inr (JList (take n xs))"
| "py_slice n _ = Inl TypeError"

text \<open>\<^verbatim>\<open>str(v)\<close>, also what \<^verbatim>\<open>str.format\<close> and an f-string put for \<open>v\<close>.\<close>

definition to_str :: "env \<Rightarrow> json \<Rightarrow> string" where
  "to_str env v = (case v of JStr s \<Rightarrow> s | _ \<Rightarrow> py_str env v)"

text \<open>\<^verbatim>\<open>v.split()\<close>: only a string has the method.\<close>

fun json_split :: "json \<Rightarrow> exn + string list" where
  "json_split (JStr s) = Inr (py_split s)"
| "json_split _ = Inl AttributeError"

text \<open>The items of \<^verbatim>\<open>' '.join(xs)\<close>: each must be a string.\<close>

fun strings_of :: "json list \<Rightarrow> exn + string list" where
  "strings_of [] = Inr []"
| "strings_of (JStr s # xs) = bind_exn (strings_of xs) (\<lambda>ss. Inr (s # ss))"
| "strings_of (_ # xs) = Inl TypeError"

text \<open>
  \<^verbatim>\<open>if isinstance(pred_data, list): pred_text = ' '.join(pred_data)\<close>
  \<^verbatim>\<open>else: pred_text = str(pred_data)\<close>
\<close>

definition prediction_text :: "env \<Rightarrow> json \<Rightarrow> exn + string" where
  "prediction_text env pred_data =
     (case pred_data of
        JList xs \<Rightarrow> bind_exn (strings_of xs) (\<lambda>ss. Inr (py_join '' '' ss))
      | _ \<Rightarrow> Inr (to_str env pred_data))"

text \<open>
  \<^verbatim>\<open>if isinstance(v, list): x = v[0]\<close>
  \<^verbatim>\<open>else: x = str(v)\<close>
\<close>

definition first_or_str :: "env \<Rightarrow> json \<Rightarrow> exn + json" where
  "first_or_str env v =
     (case v of JList xs \<Rightarrow> py_first (JList xs) | _ \<Rightarrow> Inr (JStr (to_str env v)))"

section \<open>The matcher: the index from secondary key to gold record\<close>

text \<open>
  The index is a Python dictionary; a prediction key is a string, so the index is
  read at \<open>JStr key\<close> only.  (Python identifies the keys 1, 1.0 and True; none
  of them is a string, so the identification cannot change what a prediction key finds.)

  \<^verbatim>\<open>for idx, gold_item in gold_data.items():\<close>
  \<^verbatim>\<open>    csv_id = gold_item.get('csv_id')\<close>
  \<^verbatim>\<open>    if csv_id: csv_id_to_gold[csv_id] = gold_item\<close>
\<close>

fun csv_index :: "(string \<times> json) list \<Rightarrow> (json \<rightharpoonup> json) \<Rightarrow> exn + (json \<rightharpoonup> json)" where
  "csv_index [] csv_id_to_gold = Inr csv_id_to_gold"
| "csv_index ((idx, gold_item) # rest) csv_id_to_gold =
     bind_exn (py_get gold_item ''csv_id'' JNull) (\<lambda>csv_id.
       if truthy csv_id then
         (if hashable csv_id then csv_index rest (csv_id_to_gold(csv_id \<mapsto> gold_item))
          else Inl TypeError)
       else csv_index rest csv_id_to_gold)"

text \<open>
  \<^verbatim>\<open>    feta_id = gold_item.get('feta_id')\<close>
  \<^verbatim>\<open>    if feta_id: feta_id_to_gold[str(feta_id)] = gold_item\<close>
\<close>

fun feta_index :: "env \<Rightarrow> (string \<times> json) list \<Rightarrow> (json \<rightharpoonup> json) \<Rightarrow> exn + (json \<rightharpoonup> json)" where
  "feta_index env [] feta_id_to_gold = Inr feta_id_to_gold"
| "feta_index env ((idx, gold_item) # rest) feta_id_to_gold =
     bind_exn (py_get gold_item ''feta_id'' JNull) (\<lambda>feta_id.
       if truthy feta_id then
         feta_index env rest (feta_id_to_gold(JStr (to_str env feta_id) \<mapsto> gold_item))
       else feta_index env rest feta_id_to_gold)"

section \<open>The keyword-type classifier\<close>

text \<open>The taxonomy of evaluate\_lotnlg.py, in the order of the dictionary literal.\<close>

definition type_keywords_lotnlg :: "(string \<times> string list) list" where
  "type_keywords_lotnlg =
     [(''aggregation'', [''total'', ''sum'', ''average'', ''mean'', ''aggregate'']),
      (''superlative'', [''most'', ''highest'', ''lowest'', ''best'', ''worst'', ''maximum'',
                         ''minimum'', ''largest'', ''smallest'', ''superlative'']),
      (''count'', [''number of'', ''count'', ''how many'', ''there are'', ''count:'']),
      (''comparative'', [''more than'', ''less than'', ''greater'', ''higher'', ''lower'',
                         ''comparative:'', ''compared'']),
      (''ordinal'', [''first'', ''second'', ''third'', ''last'', ''ordinal:'']),
      (''unique'', [''different'', ''unique'', ''distinct'', ''unique:'']),
      (''negation'', [''not'', ''no'', ''never'', ''did not'', ''negation:''])]"

text \<open>The taxonomy of evaluate\_logicnlg.py.\<close>

definition type_keywords_logicnlg :: "(string \<times> string list) list" where
  "type_keywords_logicnlg =
     [(''aggregation'', [''total'', ''sum'', ''average'', ''mean'']),
      (''superlative'', [''most'', ''highest'', ''lowest'', ''best'', ''worst'']),
      (''count'', [''number of'', ''count'', ''how many'']),
      (''comparative'', [''more than'', ''less than'', ''greater'', ''higher'', ''lower'']),
      (''ordinal'', [''first'', ''second'', ''third'', ''last'']),
      (''unique'', [''different'', ''unique'', ''distinct'']),
      (''negation'', [''not'', ''no'', ''never'', ''did not''])]"

text \<open>
  \<^verbatim>\<open>pred_type = 'surface-level'\<close>
  \<^verbatim>\<open>for type_name, keywords in type_keywords.items():\<close>
  \<^verbatim>\<open>    if any(kw in pred_text.lower() for kw in keywords):\<close>
  \<^verbatim>\<open>        pred_type = type_name; break\<close>
\<close>

fun keyword_type :: "(string \<times> string list) list \<Rightarrow> string \<Rightarrow> string" where
  "keyword_type [] pred_text = ''surface-level''"
| "keyword_type ((type_name, keywords) # rest) pred_text =
     (if list_ex (\<lambda>kw. py_in kw (py_lower pred_text)) keywords then type_name
      else keyword_type rest pred_text)"

text \<open>\<^verbatim>\<open>\(([^)]+)\):\<close> anchored at the start: an opening parenthesis, at least one
  character other than a closing parenthesis, the closing parenthesis and a colon.
  The result is the group.\<close>

definition match_label :: "string \<Rightarrow> string option" where
  "match_label s =
     (case after_prefix ''('' s of
        None \<Rightarrow> None
      | Some r1 \<Rightarrow>
          (case after_prefix ''):'' (dropWhile (\<lambda>c. c \<noteq> CHR '')'') r1) of
             None \<Rightarrow> None
           | Some r2 \<Rightarrow>
               if takeWhile (\<lambda>c. c \<noteq> CHR '')'') r1 \<noteq> [] then
                 Some (takeWhile (\<lambda>c. c \<noteq> CHR '')'') r1)
               else None))"

text \<open>\<^verbatim>\<open>re.search(r'\(([^)]+)\):', pred_text)\<close>: the group of the leftmost match.\<close>

fun search_label :: "string \<Rightarrow> string option" where
  "search_label [] = None"
| "search_label (c # cs) =
     (case match_label (c # cs) of
        Some label \<Rightarrow> Some label
      | None \<Rightarrow> search_label cs)"

text \<open>
  evaluate\_lotnlg.py:
  \<^verbatim>\<open>explicit_label = re.search(r'\(([^)]+)\):', pred_text)\<close>
  \<^verbatim>\<open>if explicit_label: pred_type = explicit_label.group(1).lower().strip()\<close>
  \<^verbatim>\<open>else: (keyword inference)\<close>
\<close>

definition pred_type_lotnlg :: "string \<Rightarrow> string" where
  "pred_type_lotnlg pred_text =
     (case search_label pred_text of
        Some label \<Rightarrow> py_strip (py_lower label)
      | None \<Rightarrow> keyword_type type_keywords_lotnlg pred_text)"

text \<open>evaluate\_logicnlg.py has the keyword inference only.\<close>

definition pred_type_logicnlg :: "string \<Rightarrow> string" where
  "pred_type_logicnlg pred_text = keyword_type type_keywords_logicnlg pred_text"

text \<open>evaluate\_lotnlg.py:
  \<^verbatim>\<open>pred_type.lower() in gold_type.lower() or gold_type.lower() in pred_type.lower()\<close>\<close>

definition type_hit_lotnlg :: "string \<Rightarrow> string \<Rightarrow> bool" where
  "type_hit_lotnlg pred_type gold_type =
     (py_in (py_lower pred_type) (py_lower gold_type) \<or>
      py_in (py_lower gold_type) (py_lower pred_type))"

text \<open>evaluate\_logicnlg.py: \<^verbatim>\<open>pred_type.lower() in gold_type.lower()\<close>\<close>

definition type_hit_logicnlg :: "string \<Rightarrow> string \<Rightarrow> bool" where
  "type_hit_logicnlg pred_type gold_type = py_in (py_lower pred_type) (py_lower gold_type)"

text \<open>
  \<^verbatim>\<open>gold_labels = gold_item['logical_labels']\<close>
  \<^verbatim>\<open>if isinstance(gold_labels, list): gold_type = gold_labels[0]\<close>
  \<^verbatim>\<open>else: gold_type = str(gold_labels)\<close>
  and the comparison; \<^verbatim>\<open>gold_type.lower()\<close> raises unless the label is a string.
\<close>

definition type_match ::
  "env \<Rightarrow> (string \<Rightarrow> string) \<Rightarrow> (string \<Rightarrow> string \<Rightarrow> bool) \<Rightarrow> json \<Rightarrow> string \<Rightarrow> exn + bool" where
  "type_match env pred_type_of hit gold_item pred_text =
     bind_exn (py_getitem gold_item ''logical_labels'') (\<lambda>gold_labels.
     bind_exn (first_or_str env gold_labels) (\<lambda>gold_type.
       (case gold_type of
          JStr g \<Rightarrow> Inr (hit (pred_type_of pred_text) g)
        | _ \<Rightarrow> Inl AttributeError)))"

section \<open>The lexical evaluators\<close>

text \<open>The dictionary \<^verbatim>\<open>results\<close>: metric name to running sum, in insertion order.\<close>

type_synonym metrics = "(string \<times> real) list"

text \<open>\<^verbatim>\<open>results[key] += x\<close>, for a key the dictionary holds.\<close>

definition add_to :: "string \<Rightarrow> real \<Rightarrow> metrics \<Rightarrow> metrics" where
  "add_to key x res = map (\<lambda>(k, v). if k = key then (k, v + x) else (k, v)) res"

text \<open>
  \<^verbatim>\<open>nli_input = f"{table_str[:1000]} [SEP] {pred_text[:500]}"\<close>
  \<^verbatim>\<open>nli_result = nli_model(nli_input)[0]\<close>
  \<^verbatim>\<open>nli_result['label'] == 'ENTAILMENT'\<close>
\<close>

definition nli_entailment :: "env \<Rightarrow> json \<Rightarrow> string \<Rightarrow> exn + bool" where
  "nli_entailment env table_str pred_text =
     bind_exn (py_slice 1000 table_str) (\<lambda>table_prefix.
     bind_exn (nli_model env (to_str env table_prefix @ '' [SEP] '' @ take 500 pred_text)) (\<lambda>output.
     bind_exn (py_first output) (\<lambda>nli_result.
     bind_exn (py_getitem nli_result ''label'') (\<lambda>label.
       Inr (label = JStr ''ENTAILMENT'')))))"

text \<open>
  The \<^verbatim>\<open>try\<close> block of evaluate\_lotnlg.py and evaluate\_logicnlg.py, up to
  \<^verbatim>\<open>total += 1\<close>.  The sums are updated in place, so an exception leaves behind
  what was added before it: the result is the dictionary as the block left it and the
  exception caught, if any.  \<open>scored_text\<close> is \<^verbatim>\<open>pred_text_clean\<close> in
  evaluate\_lotnlg.py and \<^verbatim>\<open>pred_text\<close> in evaluate\_logicnlg.py.
\<close>

definition score_nlg ::
  "env \<Rightarrow> (string \<Rightarrow> string) \<Rightarrow> (string \<Rightarrow> string \<Rightarrow> bool) \<Rightarrow> bool \<Rightarrow> json \<Rightarrow> json \<Rightarrow> json
     \<Rightarrow> string \<Rightarrow> string \<Rightarrow> metrics \<Rightarrow> metrics \<times> exn option" where
  "score_nlg env pred_type_of hit has_logical_labels gold_item table_str gold_text
       pred_text scored_text res =
     (case nli_entailment env table_str pred_text of
        Inl e \<Rightarrow> (res, Some e)
      | Inr entailment \<Rightarrow>
          let results1 = (if entailment then add_to ''nli_acc'' 1 res else res) in
          (case rouge_score env gold_text scored_text of
             Inl e \<Rightarrow> (results1, Some e)
           | Inr rouge \<Rightarrow>
               let results2 = add_to ''rouge_l'' (rougeL rouge) results1 in
               (case bind_exn (json_split gold_text) (\<lambda>reference.
                       sentence_bleu env [reference] (py_split scored_text)) of
                  Inl e \<Rightarrow> (results2, Some e)
                | Inr bleu \<Rightarrow>
                    let results3 = add_to ''bleu'' bleu results2 in
                    if has_logical_labels then
                      (case type_match env pred_type_of hit gold_item pred_text of
                         Inl e \<Rightarrow> (results3, Some e)
                       | Inr matched \<Rightarrow>
                           ((if matched then add_to ''type_em'' 1 results3 else results3), None))
                    else (results3, None))))"

text \<open>
  One prediction with its gold record in evaluate\_lotnlg.py.  What stands before
  \<^verbatim>\<open>try\<close> is not guarded: its exception leaves the function (\<open>Inl\<close>).
\<close>

definition example_lotnlg :: "env \<Rightarrow> bool \<Rightarrow> json \<Rightarrow> json \<Rightarrow> metrics \<Rightarrow> exn + (metrics \<times> exn option)" where
  "example_lotnlg env has_logical_labels pred_data gold_item res =
     bind_exn (prediction_text env pred_data) (\<lambda>pred_text.
     let pred_text_clean = clean_prediction_text pred_text in
     bind_exn (py_getitem gold_item ''table_text'') (\<lambda>table_str.
     bind_exn (py_getitem gold_item ''sentences'') (\<lambda>gold_sentences.
     bind_exn (first_or_str env gold_sentences) (\<lambda>gold_text.
       Inr (score_nlg env pred_type_lotnlg type_hit_lotnlg has_logical_labels gold_item
              table_str gold_text pred_text pred_text_clean res)))))"

text \<open>The same in evaluate\_logicnlg.py: the prediction is scored as it is.\<close>

definition example_logicnlg :: "env \<Rightarrow> bool \<Rightarrow> json \<Rightarrow> json \<Rightarrow> metrics \<Rightarrow> exn + (metrics \<times> exn option)" where
  "example_logicnlg env has_logical_labels pred_data gold_item res =
     bind_exn (prediction_text env pred_data) (\<lambda>pred_text.
     bind_exn (py_getitem gold_item ''table_text'') (\<lambda>table_str.
     bind_exn (py_getitem gold_item ''sentences'') (\<lambda>gold_sentences.
     bind_exn (first_or_str env gold_sentences) (\<lambda>gold_text.
       Inr (score_nlg env pred_type_logicnlg type_hit_logicnlg has_logical_labels gold_item
              table_str gold_text pred_text pred_text res)))))"

text \<open>
  The \<^verbatim>\<open>try\<close> block of evaluate\_fetaqa.py: the three ROUGE sums are updated
  after \<^verbatim>\<open>rouge.score\<close> returned, the BLEU sum after \<^verbatim>\<open>sentence_bleu\<close>.
\<close>

definition score_fetaqa :: "env \<Rightarrow> json \<Rightarrow> string \<Rightarrow> metrics \<Rightarrow> metrics \<times> exn option" where
  "score_fetaqa env gold_answer pred_text res =
     (case rouge_score env gold_answer pred_text of
        Inl e \<Rightarrow> (res, Some e)
      | Inr rouge \<Rightarrow>
          let results1 = add_to ''rougeL'' (rougeL rouge)
                (add_to ''rouge2'' (rouge2 rouge) (add_to ''rouge1'' (rouge1 rouge) res)) in
          (case bind_exn (json_split gold_answer) (\<lambda>reference.
                  sentence_bleu_smooth env [reference] (py_split pred_text)) of
             Inl e \<Rightarrow> (results1, Some e)
           | Inr bleu \<Rightarrow> (add_to ''bleu'' bleu results1, None)))"

definition example_fetaqa :: "env \<Rightarrow> json \<Rightarrow> json \<Rightarrow> metrics \<Rightarrow> exn + (metrics \<times> exn option)" where
  "example_fetaqa env pred_data gold_item res =
     bind_exn (prediction_text env pred_data) (\<lambda>pred_text.
     bind_exn (py_getitem gold_item ''answer'') (\<lambda>gold_answer.
       Inr (score_fetaqa env gold_answer pred_text res)))"

text \<open>
  The variables of the evaluation loop; \<open>errors\<close> is what the handler prints
  (\<^verbatim>\<open>Error processing {csv_id}: {e}\<close>), in order.
\<close>

record lex_state =
  results :: metrics
  total :: nat
  not_found :: nat
  errors :: "(string \<times> exn) list"

text \<open>
  \<^verbatim>\<open>for csv_id, pred_data in predictions.items():\<close>
  \<^verbatim>\<open>    if csv_id not in csv_id_to_gold: not_found += 1; continue\<close>
  \<^verbatim>\<open>    (the example; in its try block, total += 1 comes last)\<close>
  \<^verbatim>\<open>    except Exception as e: print(...); continue\<close>
\<close>

fun lexical_loop ::
  "(json \<Rightarrow> json \<Rightarrow> metrics \<Rightarrow> exn + (metrics \<times> exn option)) \<Rightarrow> (json \<rightharpoonup> json)
     \<Rightarrow> (string \<times> json) list \<Rightarrow> lex_state \<Rightarrow> exn + lex_state" where
  "lexical_loop example index [] st = Inr st"
| "lexical_loop example index ((key, pred_data) # rest) st =
     (case index (JStr key) of
        None \<Rightarrow> lexical_loop example index rest (st\<lparr>not_found := not_found st + 1\<rparr>)
      | Some gold_item \<Rightarrow>
          (case example pred_data gold_item (results st) of
             Inl e \<Rightarrow> Inl e
           | Inr (results', None) \<Rightarrow>
               lexical_loop example index rest (st\<lparr>results := results', total := total st + 1\<rparr>)
           | Inr (results', Some e) \<Rightarrow>
               lexical_loop example index rest
                 (st\<lparr>results := results', errors := errors st @ [(key, e)]\<rparr>)))"

text \<open>
  \<^verbatim>\<open>if total > 0:\<close>
  \<^verbatim>\<open>    for key in results: results[key] = (results[key] / total) * 100\<close>
\<close>

definition percentages :: "nat \<Rightarrow> metrics \<Rightarrow> metrics" where
  "percentages n res =
     (if n > 0 then map (\<lambda>(key, v). (key, (v / real n) * 100)) res else res)"

definition finalize :: "lex_state \<Rightarrow> lex_state" where
  "finalize st = st\<lparr>results := percentages (total st) (results st)\<rparr>"

text \<open>\<^verbatim>\<open>sample_item = next(iter(gold_data.values()))\<close>\<close>

definition first_value :: "(string \<times> json) list \<Rightarrow> exn + json" where
  "first_value gold_data = (case gold_data of [] \<Rightarrow> Inl StopIteration | (idx, v) # _ \<Rightarrow> Inr v)"

definition initial_nlg :: "bool \<Rightarrow> lex_state" where
  "initial_nlg has_logical_labels =
     \<lparr>results = [(''nli_acc'', 0), (''rouge_l'', 0), (''bleu'', 0)]
                  @ (if has_logical_labels then [(''type_em'', 0)] else []),
      total = 0, not_found = 0, errors = []\<rparr>"

text \<open>
  evaluate\_lotnlg.py, function evaluate\_lotnlg, from the loaded files on.  The result is
  the returned dictionary: the metrics, \<^verbatim>\<open>total\<close> and \<^verbatim>\<open>not_found\<close> (with the
  errors printed on the way), and \<^verbatim>\<open>has_type_em\<close>.
\<close>

definition evaluate_lotnlg ::
  "env \<Rightarrow> (string \<times> json) list \<Rightarrow> (string \<times> json) list \<Rightarrow> exn + (lex_state \<times> bool)" where
  "evaluate_lotnlg env predictions gold_data =
     bind_exn (csv_index gold_data Map.empty) (\<lambda>csv_id_to_gold.
     bind_exn (first_value gold_data) (\<lambda>sample_item.
     bind_exn (py_contains ''logical_labels'' sample_item) (\<lambda>has_logical_labels.
     bind_exn (lexical_loop (example_lotnlg env has_logical_labels) csv_id_to_gold predictions
                 (initial_nlg has_logical_labels)) (\<lambda>st.
       Inr (finalize st, has_logical_labels)))))"

text \<open>evaluate\_logicnlg.py, whose function is named evaluate\_lotnlg as well.\<close>

definition evaluate_logicnlg ::
  "env \<Rightarrow> (string \<times> json) list \<Rightarrow> (string \<times> json) list \<Rightarrow> exn + (lex_state \<times> bool)" where
  "evaluate_logicnlg env predictions gold_data =
     bind_exn (csv_index gold_data Map.empty) (\<lambda>csv_id_to_gold.
     bind_exn (first_value gold_data) (\<lambda>sample_item.
     bind_exn (py_contains ''logical_labels'' sample_item) (\<lambda>has_logical_labels.
     bind_exn (lexical_loop (example_logicnlg env has_logical_labels) csv_id_to_gold predictions
                 (initial_nlg has_logical_labels)) (\<lambda>st.
       Inr (finalize st, has_logical_labels)))))"

definition initial_fetaqa :: lex_state where
  "initial_fetaqa =
     \<lparr>results = [(''rouge1'', 0), (''rouge2'', 0), (''rougeL'', 0), (''bleu'', 0)],
      total = 0, not_found = 0, errors = []\<rparr>"

text \<open>evaluate\_fetaqa.py, function evaluate\_fetaqa.\<close>

definition evaluate_fetaqa ::
  "env \<Rightarrow> (string \<times> json) list \<Rightarrow> (string \<times> json) list \<Rightarrow> exn + lex_state" where
  "evaluate_fetaqa env predictions gold_data =
     bind_exn (feta_index env gold_data Map.empty) (\<lambda>feta_id_to_gold.
     bind_exn (lexical_loop (example_fetaqa env) feta_id_to_gold predictions initial_fetaqa) (\<lambda>st.
       Inr (finalize st)))"

section \<open>The LLM-judge evaluators\<close>

definition newline :: string where
  "newline = [CHR 0x0A]"

text \<open>\<^verbatim>\<open>COT_EVAL_PROMPT.format(table=..., statement=...)\<close> of cot\_eval.py.\<close>

definition COT_EVAL_PROMPT :: "string \<Rightarrow> string \<Rightarrow> string" where
  "COT_EVAL_PROMPT table statement = py_join newline
     [''Given a table and a generated statement, determine if the statement is factually correct and faithful to the table.'',
      [],
      ''Table:'',
      table,
      [],
      ''Generated Statement:'',
      statement,
      [],
      ''Please reason step-by-step:'',
      ''1. Extract the key facts from the table'',
      ''2. Identify claims made in the statement'',
      ''3. Verify each claim against the table'',
      ''4. Determine if the statement is faithful (all facts are correct)'',
      [],
      ''Answer with \"FAITHFUL\" or \"NOT FAITHFUL\" at the end.'']"

text \<open>\<^verbatim>\<open>COT_EVAL_PROMPT_LOTNLG.format(table=..., statement=...)\<close> of cot\_eval\_lotnlg.py.\<close>

definition COT_EVAL_PROMPT_LOTNLG :: "string \<Rightarrow> string \<Rightarrow> string" where
  "COT_EVAL_PROMPT_LOTNLG table statement = py_join newline
     [''Given a table and a generated statement about the table, determine if the statement is factually correct and faithful to the table data.'',
      [],
      ''Table:'',
      table,
      [],
      ''Generated Statement:'',
      statement,
      [],
      ''Please reason step-by-step:'',
      ''1. Extract the key facts mentioned in the statement'',
      ''2. Locate the relevant data in the table'',
      ''3. Verify each fact against the table data'',
      ''4. Check for any numerical errors, logical inconsistencies, or false claims'',
      ''5. Determine if the statement is completely faithful to the table'',
      [],
      ''Answer with \"FAITHFUL\" or \"NOT FAITHFUL\" at the end.'']"

text \<open>\<^verbatim>\<open>COT_EVAL_PROMPT_FETAQA.format(table=..., question=..., reference=..., prediction=...)\<close>
  of cot\_eval\_fetaqa.py.\<close>

definition COT_EVAL_PROMPT_FETAQA :: "string \<Rightarrow> string \<Rightarrow> string \<Rightarrow> string \<Rightarrow> string" where
  "COT_EVAL_PROMPT_FETAQA table question reference prediction = py_join newline
     [''Given a table, a question about the table, a reference answer, and a predicted answer, determine if the predicted answer correctly answers the question based on the table.'',
      [],
      ''Table:'',
      table,
      [],
      ''Question: '' @ question,
      [],
      ''Reference Answer: '' @ reference,
      [],
      ''Predicted Answer: '' @ prediction,
      [],
      ''Please reason step-by-step:'',
      ''1. Identify what information the question asks for'',
      ''2. Extract the relevant data from the table'',
      ''3. Compare the predicted answer with the reference answer'',
      ''4. Check if the predicted answer contains the correct information from the table'',
      ''5. Determine if the prediction is correct (semantically equivalent, even if worded differently)'',
      [],
      ''Answer with \"CORRECT\" or \"INCORRECT\" at the end.'']"

text \<open>\<^verbatim>\<open>answer = response['choices'][0]['message']['content']\<close>\<close>

definition response_content :: "json \<Rightarrow> exn + json" where
  "response_content response =
     bind_exn (py_getitem response ''choices'') (\<lambda>choices.
     bind_exn (py_first choices) (\<lambda>choice.
     bind_exn (py_getitem choice ''message'') (\<lambda>message.
       py_getitem message ''content'')))"

text \<open>
  \<^verbatim>\<open>if positive in answer and negative not in answer: return 1\<close>
  \<^verbatim>\<open>else: return 0\<close>
\<close>

definition verdict :: "string \<Rightarrow> string \<Rightarrow> json \<Rightarrow> exn + nat" where
  "verdict positive negative answer =
     bind_exn (py_contains positive answer) (\<lambda>has_positive.
       if has_positive then
         bind_exn (py_contains negative answer) (\<lambda>has_negative.
           Inr (if \<not> has_negative then 1 else 0))
       else Inr 0)"

text \<open>The call and the parse, as all three scripts have them; \<open>prompt\<close> is the
  formatted template.\<close>

definition judge :: "env \<Rightarrow> string \<Rightarrow> string \<Rightarrow> string \<Rightarrow> string \<Rightarrow> exn + nat" where
  "judge env model prompt positive negative =
     bind_exn (chat_completion env model prompt) (\<lambda>response.
     bind_exn (response_content response) (\<lambda>answer.
       verdict positive negative answer))"

text \<open>cot\_eval.py, evaluate\_single: the call and the parse are not guarded.\<close>

definition evaluate_single :: "env \<Rightarrow> json \<Rightarrow> json \<Rightarrow> string \<Rightarrow> exn + nat" where
  "evaluate_single env table_text generated_text model =
     judge env model (COT_EVAL_PROMPT (to_str env table_text) (to_str env generated_text))
       ''FAITHFUL'' ''NOT FAITHFUL''"

text \<open>cot\_eval\_lotnlg.py, evaluate\_single\_lotnlg: the call and the parse stand in
  \<^verbatim>\<open>try\<close>, and the handler returns 0.\<close>

definition evaluate_single_lotnlg :: "env \<Rightarrow> json \<Rightarrow> string \<Rightarrow> string \<Rightarrow> nat" where
  "evaluate_single_lotnlg env table_text generated_text model =
     (case judge env model (COT_EVAL_PROMPT_LOTNLG (to_str env table_text) generated_text)
             ''FAITHFUL'' ''NOT FAITHFUL'' of
        Inl e \<Rightarrow> 0
      | Inr score \<Rightarrow> score)"

text \<open>cot\_eval\_fetaqa.py, evaluate\_single\_fetaqa: likewise.\<close>

definition evaluate_single_fetaqa :: "env \<Rightarrow> json \<Rightarrow> json \<Rightarrow> json \<Rightarrow> string \<Rightarrow> string \<Rightarrow> nat" where
  "evaluate_single_fetaqa env table_text question reference prediction model =
     (case judge env model
             (COT_EVAL_PROMPT_FETAQA (to_str env table_text) (to_str env question)
                (to_str env reference) prediction)
             ''CORRECT'' ''INCORRECT'' of
        Inl e \<Rightarrow> 0
      | Inr score \<Rightarrow> score)"

text \<open>
  One prediction with its gold record in the three loops: \<open>Inl\<close> is an exception
  before \<^verbatim>\<open>try\<close>, which leaves the function; \<open>Inr (Inl e)\<close> is an exception
  in the \<^verbatim>\<open>try\<close> block, which the handler catches; \<open>Inr (Inr score)\<close> is the score.
\<close>

definition example_cot :: "env \<Rightarrow> string \<Rightarrow> json \<Rightarrow> json \<Rightarrow> exn + (exn + nat)" where
  "example_cot env model pred_text gold_item =
     bind_exn (py_getitem gold_item ''table_text'') (\<lambda>table_text.
       Inr (evaluate_single env table_text pred_text model))"

definition example_cot_lotnlg :: "env \<Rightarrow> string \<Rightarrow> json \<Rightarrow> json \<Rightarrow> exn + (exn + nat)" where
  "example_cot_lotnlg env model pred_data gold_item =
     bind_exn (prediction_text env pred_data) (\<lambda>pred_text.
     bind_exn (py_get gold_item ''table_text'' (JStr [])) (\<lambda>table_text.
       Inr (bind_exn (py_slice 1500 table_text) (\<lambda>table_text_trunc.
              Inr (evaluate_single_lotnlg env table_text_trunc (take 800 pred_text) model)))))"

definition example_cot_fetaqa :: "env \<Rightarrow> string \<Rightarrow> json \<Rightarrow> json \<Rightarrow> exn + (exn + nat)" where
  "example_cot_fetaqa env model pred_data gold_item =
     bind_exn (prediction_text env pred_data) (\<lambda>pred_text.
     bind_exn (py_get gold_item ''table_text'' (JStr [])) (\<lambda>table_text.
     bind_exn (py_get gold_item ''question'' (JStr [])) (\<lambda>question.
     bind_exn (py_get gold_item ''answer'' (JStr [])) (\<lambda>reference.
       Inr (bind_exn (py_slice 1500 table_text) (\<lambda>table_text_trunc.
            bind_exn (py_slice 500 reference) (\<lambda>reference_trunc.
              Inr (evaluate_single_fetaqa env table_text_trunc question reference_trunc
                     (take 500 pred_text) model))))))))"

text \<open>
  The variables of the loop of the three scripts; \<open>cot_not_found\<close> is their
  \<^verbatim>\<open>not_found\<close>, \<open>cot_errors\<close> what the handler prints
  (\<^verbatim>\<open>Error evaluating {csv_id}: {e}\<close>).
\<close>

record cot_state =
  total_score :: nat
  total_count :: nat
  cot_not_found :: nat
  cot_errors :: "(string \<times> exn) list"

text \<open>
  \<^verbatim>\<open>for csv_id, pred_data in predictions.items():\<close>
  \<^verbatim>\<open>    if csv_id not in csv_id_to_gold: not_found += 1; continue\<close>
  \<^verbatim>\<open>    try: score = await evaluate_single(...); total_score += score; total_count += 1\<close>
  \<^verbatim>\<open>    except Exception as e: print(...); continue\<close>
\<close>

fun cot_loop ::
  "(json \<Rightarrow> json \<Rightarrow> exn + (exn + nat)) \<Rightarrow> (json \<rightharpoonup> json) \<Rightarrow> (string \<times> json) list
     \<Rightarrow> cot_state \<Rightarrow> exn + cot_state" where
  "cot_loop example index [] st = Inr st"
| "cot_loop example index ((key, pred_data) # rest) st =
     (case index (JStr key) of
        None \<Rightarrow> cot_loop example index rest (st\<lparr>cot_not_found := cot_not_found st + 1\<rparr>)
      | Some gold_item \<Rightarrow>
          (case example pred_data gold_item of
             Inl e \<Rightarrow> Inl e
           | Inr (Inl e) \<Rightarrow>
               cot_loop example index rest (st\<lparr>cot_errors := cot_errors st @ [(key, e)]\<rparr>)
           | Inr (Inr score) \<Rightarrow>
               cot_loop example index rest
                 (st\<lparr>total_score := total_score st + score, total_count := total_count st + 1\<rparr>)))"

definition initial_cot :: cot_state where
  "initial_cot = \<lparr>total_score = 0, total_count = 0, cot_not_found = 0, cot_errors = []\<rparr>"

text \<open>\<^verbatim>\<open>accuracy = (total_score / total_count * 100) if total_count > 0 else 0\<close>\<close>

definition accuracy :: "cot_state \<Rightarrow> real" where
  "accuracy st =
     (if total_count st > 0 then real (total_score st) / real (total_count st) * 100 else 0)"

text \<open>cot\_eval.py, evaluate\_all: the returned accuracy and the counters it prints.\<close>

definition evaluate_all ::
  "env \<Rightarrow> (string \<times> json) list \<Rightarrow> (string \<times> json) list \<Rightarrow> string \<Rightarrow> exn + (real \<times> cot_state)" where
  "evaluate_all env predictions gold_data model =
     bind_exn (csv_index gold_data Map.empty) (\<lambda>csv_id_to_gold.
     bind_exn (cot_loop (example_cot env model) csv_id_to_gold predictions initial_cot) (\<lambda>st.
       Inr (accuracy st, st)))"

text \<open>cot\_eval\_lotnlg.py, evaluate\_all\_lotnlg.\<close>

definition evaluate_all_lotnlg ::
  "env \<Rightarrow> (string \<times> json) list \<Rightarrow> (string \<times> json) list \<Rightarrow> string \<Rightarrow> exn + (real \<times> cot_state)" where
  "evaluate_all_lotnlg env predictions gold_data model =
     bind_exn (csv_index gold_data Map.empty) (\<lambda>csv_id_to_gold.
     bind_exn (cot_loop (example_cot_lotnlg env model) csv_id_to_gold predictions initial_cot) (\<lambda>st.
       Inr (accuracy st, st)))"

text \<open>cot\_eval\_fetaqa.py, evaluate\_all\_fetaqa.\<close>

definition evaluate_all_fetaqa ::
  "env \<Rightarrow> (string \<times> json) list \<Rightarrow> (string \<times> json) list \<Rightarrow> string \<Rightarrow> exn + (real \<times> cot_state)" where
  "evaluate_all_fetaqa env predictions gold_data model =
     bind_exn (feta_index env gold_data Map.empty) (\<lambda>feta_id_to_gold.
     bind_exn (cot_loop (example_cot_fetaqa env model) feta_id_to_gold predictions initial_cot) (\<lambda>st.
       Inr (accuracy st, st)))"

text \<open>A pattern matches somewhere in a text: at the start of one of its non-empty suffixes
  (none of the patterns matches the empty string).\<close>

fun matches_somewhere :: "(string \<Rightarrow> 'a option) \<Rightarrow> string \<Rightarrow> bool" where
  "matches_somewhere m [] = False"
| "matches_somewhere m (c # cs) = (m (c # cs) \<noteq> None \<or> matches_somewhere m cs)"

section \<open>Concrete runs\<close>

text \<open>A judge that answers every prompt with the same response.\<close>

definition judge_env :: "json \<Rightarrow> env" where
  "judge_env response =
     \<lparr>py_str = (\<lambda>v. []),
      chat_completion = (\<lambda>model prompt. Inr response),
      nli_model = (\<lambda>text. Inl ExternalError),
      rouge_score = (\<lambda>target prediction. Inl ExternalError),
      sentence_bleu = (\<lambda>references hypothesis. Inl ExternalError),
      sentence_bleu_smooth = (\<lambda>references hypothesis. Inl ExternalError)\<rparr>"

definition chat_response :: "string \<Rightarrow> json" where
  "chat_response answer =
     JObj [(''choices'', JList [JObj [(''message'', JObj [(''content'', JStr answer)])]])]"

text \<open>Metric libraries that never raise (the classifier answers ENTAILMENT, ROUGE is 1,
  BLEU is 0) and a chat completion whose every call fails.\<close>

definition metric_env :: env where
  "metric_env =
     \<lparr>py_str = (\<lambda>v. []),
      chat_completion = (\<lambda>model prompt. Inl ExternalError),
      nli_model = (\<lambda>text. Inr (JList [JObj [(''label'', JStr ''ENTAILMENT'')]])),
      rouge_score = (\<lambda>target prediction. Inr \<lparr>rouge1 = 1, rouge2 = 1, rougeL = 1\<rparr>),
      sentence_bleu = (\<lambda>references hypothesis. Inr 0),
      sentence_bleu_smooth = (\<lambda>references hypothesis. Inr 0)\<rparr>"

text \<open>Scenarios A and B of the specification in one file of predictions: the key t1 has a
  gold record in the gold file of Scenario A, the key t2 has none.\<close>

definition scenario_ab_predictions :: "(string \<times> json) list" where
  "scenario_ab_predictions = [(''t1'', JStr ''The total sales were 500.''), (''t2'', JStr ''X'')]"

definition scenario_a_gold :: "(string \<times> json) list" where
  "scenario_a_gold =
     [(''0'', JObj [(''csv_id'', JStr ''t1''),
                    (''table_text'', JStr (''Year|Sales'' @ newline @ ''2020|500'')),
                    (''sentences'', JList [JStr ''Total sales were 500 in 2020.''])])]"

text \<open>One prediction \<^verbatim>\<open>{"t1": "x"}\<close> and gold files with one record for it.\<close>

definition one_prediction :: "(string \<times> json) list" where
  "one_prediction = [(''t1'', JStr ''x'')]"

text \<open>\<^verbatim>\<open>{"0": {"csv_id": "t1", "feta_id": "t1", "table_text": "T"}}\<close>\<close>

definition table_only_gold :: "(string \<times> json) list" where
  "table_only_gold =
     [(''0'', JObj [(''csv_id'', JStr ''t1''), (''feta_id'', JStr ''t1''),
                    (''table_text'', JStr ''T'')])]"

text \<open>\<^verbatim>\<open>{"0": {"csv_id": "t1", "table_text": "T", "sentences": []}}\<close>\<close>

definition no_sentence_gold :: "(string \<times> json) list" where
  "no_sentence_gold =
     [(''0'', JObj [(''csv_id'', JStr ''t1''), (''table_text'', JStr ''T''),
                    (''sentences'', JList [])])]"

text \<open>\<^verbatim>\<open>{"0": {"csv_id": "t1", "table_text": "T", "sentences": ["x"], "logical_labels": []}}\<close>\<close>

definition no_label_gold :: "(string \<times> json) list" where
  "no_label_gold =
     [(''0'', JObj [(''csv_id'', JStr ''t1''), (''table_text'', JStr ''T''),
                    (''sentences'', JList [JStr ''x'']), (''logical_labels'', JList [])])]"

text \<open>\<^verbatim>\<open>{"0": {"feta_id": "t1", "table_text": "T", "question": "q", "answer": "x"}}\<close>\<close>

definition qa_gold :: "(string \<times> json) list" where
  "qa_gold =
     [(''0'', JObj [(''feta_id'', JStr ''t1''), (''table_text'', JStr ''T''),
                    (''question'', JStr ''q''), (''answer'', JStr ''x'')])]"

lemmas run_defs =
  bind_exn_def first_value_def initial_nlg_def initial_fetaqa_def initial_cot_def finalize_def
  percentages_def accuracy_def add_to_def to_str_def prediction_text_def first_or_str_def

lemmas text_defs =
  py_lower_def lower_char_def is_upper_def py_strip_def py_isspace_def

section \<open>Verdict parsing\<close>

lemma py_in_sublist: "py_in sub s = sublist sub s"
  by (induction s) (auto simp: sublist_Cons_right)

lemma verdict_str:
  "verdict positive negative (JStr answer) =
     Inr (if sublist positive answer \<and> \<not> sublist negative answer then 1 else 0)"
  by (simp add: verdict_def bind_exn_def py_in_sublist)

lemma response_content_chat_response:
  "response_content (chat_response answer) = Inr (JStr answer)"
  by (simp add: response_content_def chat_response_def bind_exn_def)

text \<open>
  Claim C1.  When the chat completion returns a response whose content is the text
  \<open>answer\<close>, each of the three judge functions scores 1 if the positive token occurs in
  \<open>answer\<close> and the negative token does not, and 0 otherwise (both tokens, or neither):
  FAITHFUL / NOT FAITHFUL in evaluate\_single and evaluate\_single\_lotnlg,
  CORRECT / INCORRECT in evaluate\_single\_fetaqa.  (\<open>sublist t s\<close> says that \<open>t\<close>
  occurs in \<open>s\<close>: \<open>s = ps @ t @ ss\<close> for some \<open>ps\<close>, \<open>ss\<close>.)
\<close>

theorem verdict_parsing:
  "(chat_completion env model (COT_EVAL_PROMPT (to_str env table_text) (to_str env generated_text))
        = Inr response \<and> response_content response = Inr (JStr answer)
      \<longrightarrow> evaluate_single env table_text generated_text model
            = Inr (if sublist ''FAITHFUL'' answer \<and> \<not> sublist ''NOT FAITHFUL'' answer then 1 else 0))
   \<and> (chat_completion env model (COT_EVAL_PROMPT_LOTNLG (to_str env table_text) statement)
        = Inr response \<and> response_content response = Inr (JStr answer)
      \<longrightarrow> evaluate_single_lotnlg env table_text statement model
            = (if sublist ''FAITHFUL'' answer \<and> \<not> sublist ''NOT FAITHFUL'' answer then 1 else 0))
   \<and> (chat_completion env model
          (COT_EVAL_PROMPT_FETAQA (to_str env table_text) (to_str env question)
             (to_str env reference) prediction)
        = Inr response \<and> response_content response = Inr (JStr answer)
      \<longrightarrow> evaluate_single_fetaqa env table_text question reference prediction model
            = (if sublist ''CORRECT'' answer \<and> \<not> sublist ''INCORRECT'' answer then 1 else 0))"
  by (simp add: evaluate_single_def evaluate_single_lotnlg_def evaluate_single_fetaqa_def
        judge_def bind_exn_def verdict_str)

text \<open>Scenario C of the specification, and an answer INCORRECT, which holds both tokens
  of its pair.\<close>

theorem verdict_parsing_witness:
  "evaluate_single (judge_env (chat_response ''Answer: FAITHFUL'')) (JStr ''T'') (JStr ''s'') ''sonar''
     = Inr 1
   \<and> evaluate_single_lotnlg
        (judge_env (chat_response ''partially FAITHFUL but also NOT FAITHFUL in one detail''))
        (JStr ''T'') ''s'' ''sonar'' = 0
   \<and> evaluate_single_fetaqa (judge_env (chat_response ''INCORRECT''))
        (JStr ''T'') (JStr ''q'') (JStr ''r'') ''p'' ''sonar'' = 0"
  using
    verdict_parsing [of "judge_env (chat_response ''Answer: FAITHFUL'')" "''sonar''"
      "JStr ''T''" "JStr ''s''" "chat_response ''Answer: FAITHFUL''" "''Answer: FAITHFUL''"]
    verdict_parsing [of
      "judge_env (chat_response ''partially FAITHFUL but also NOT FAITHFUL in one detail'')"
      "''sonar''" "JStr ''T''" _
      "chat_response ''partially FAITHFUL but also NOT FAITHFUL in one detail''"
      "''partially FAITHFUL but also NOT FAITHFUL in one detail''" "''s''"]
    verdict_parsing [of "judge_env (chat_response ''INCORRECT'')" "''sonar''" "JStr ''T''" _
      "chat_response ''INCORRECT''" "''INCORRECT''" _ "JStr ''q''" "JStr ''r''" "''p''"]
  by (simp add: judge_env_def response_content_chat_response sublist_code)

section \<open>Counting in the evaluation loops\<close>

text \<open>
  When the guarded block raises for no prediction that has a gold record, a loop that
  returns has counted every prediction without a gold record in \<open>not_found\<close> and every
  other one in \<open>total\<close>.
\<close>

lemma lexical_loop_counts:
  "lexical_loop example index predictions st = Inr st' \<Longrightarrow>
   (\<And>key pred_data gold_item res res' e.
      (key, pred_data) \<in> set predictions \<Longrightarrow> index (JStr key) = Some gold_item \<Longrightarrow>
      example pred_data gold_item res \<noteq> Inr (res', Some e)) \<Longrightarrow>
   not_found st' = not_found st
       + length (filter (\<lambda>(key, pred_data). index (JStr key) = None) predictions)
   \<and> total st' = total st
       + length (filter (\<lambda>(key, pred_data). index (JStr key) \<noteq> None) predictions)"
proof (induction predictions arbitrary: st)
  case Nil
  then show ?case by simp
next
  case (Cons p predictions)
  obtain key pred_data where p: "p = (key, pred_data)" by (cases p)
  have rest: "\<And>key pred_data gold_item res res' e.
      (key, pred_data) \<in> set predictions \<Longrightarrow> index (JStr key) = Some gold_item \<Longrightarrow>
      example pred_data gold_item res \<noteq> Inr (res', Some e)"
    by (rule Cons.prems(2)) auto
  show ?case
  proof (cases "index (JStr key)")
    case None
    with Cons.prems(1) p
    have "lexical_loop example index predictions (st\<lparr>not_found := not_found st + 1\<rparr>) = Inr st'"
      by simp
    from Cons.IH [OF this rest] show ?thesis using p None by simp
  next
    case (Some gold_item)
    have here: "\<And>res' e. example pred_data gold_item (results st) \<noteq> Inr (res', Some e)"
      using Cons.prems(2) [of key pred_data gold_item] p Some by simp
    show ?thesis
    proof (cases "example pred_data gold_item (results st)")
      case (Inl e)
      with Cons.prems(1) p Some show ?thesis by simp
    next
      case (Inr r)
      obtain results' caught where r: "r = (results', caught)" by (cases r)
      with Inr here have "caught = None" by (cases caught) auto
      with Cons.prems(1) p Some Inr r
      have "lexical_loop example index predictions
              (st\<lparr>results := results', total := total st + 1\<rparr>) = Inr st'"
        by simp
      from Cons.IH [OF this rest] show ?thesis using p Some by simp
    qed
  qed
qed

lemma cot_loop_counts:
  "cot_loop example index predictions st = Inr st' \<Longrightarrow>
   (\<And>key pred_data gold_item e.
      (key, pred_data) \<in> set predictions \<Longrightarrow> index (JStr key) = Some gold_item \<Longrightarrow>
      example pred_data gold_item \<noteq> Inr (Inl e)) \<Longrightarrow>
   cot_not_found st' = cot_not_found st
       + length (filter (\<lambda>(key, pred_data). index (JStr key) = None) predictions)
   \<and> total_count st' = total_count st
       + length (filter (\<lambda>(key, pred_data). index (JStr key) \<noteq> None) predictions)"
proof (induction predictions arbitrary: st)
  case Nil
  then show ?case by simp
next
  case (Cons p predictions)
  obtain key pred_data where p: "p = (key, pred_data)" by (cases p)
  have rest: "\<And>key pred_data gold_item e.
      (key, pred_data) \<in> set predictions \<Longrightarrow> index (JStr key) = Some gold_item \<Longrightarrow>
      example pred_data gold_item \<noteq> Inr (Inl e)"
    by (rule Cons.prems(2)) auto
  show ?case
  proof (cases "index (JStr key)")
    case None
    with Cons.prems(1) p
    have "cot_loop example index predictions (st\<lparr>cot_not_found := cot_not_found st + 1\<rparr>) = Inr st'"
      by simp
    from Cons.IH [OF this rest] show ?thesis using p None by simp
  next
    case (Some gold_item)
    have here: "\<And>e. example pred_data gold_item \<noteq> Inr (Inl e)"
      using Cons.prems(2) [of key pred_data gold_item] p Some by simp
    show ?thesis
    proof (cases "example pred_data gold_item")
      case (Inl e)
      with Cons.prems(1) p Some show ?thesis by simp
    next
      case (Inr r)
      with here obtain score where "r = Inr score" by (cases r) auto
      with Cons.prems(1) p Some Inr
      have "cot_loop example index predictions
              (st\<lparr>total_score := total_score st + score, total_count := total_count st + 1\<rparr>)
              = Inr st'"
        by simp
      from Cons.IH [OF this rest] show ?thesis using p Some by simp
    qed
  qed
qed

text \<open>Every prediction either has a gold record or has none.\<close>

lemma matched_or_not:
  "length (filter (\<lambda>(key, pred_data). index (JStr key) \<noteq> None) predictions)
     + length (filter (\<lambda>(key, pred_data). index (JStr key) = None) predictions)
   = length (predictions :: (string \<times> json) list)"
  using sum_length_filter_compl [of "\<lambda>(key, pred_data). index (JStr key) \<noteq> None" predictions]
  by (simp add: case_prod_unfold)

lemma lexical_run_counts:
  assumes "lexical_loop example index predictions st = Inr st'"
    and "total st = 0" and "not_found st = 0"
    and "\<forall>(key, pred_data) \<in> set predictions. \<forall>gold_item res res' e.
           index (JStr key) = Some gold_item \<longrightarrow>
           example pred_data gold_item res \<noteq> Inr (res', Some e)"
  shows "not_found (finalize st')
           = length (filter (\<lambda>(key, pred_data). index (JStr key) = None) predictions)
         \<and> total (finalize st')
           = length (filter (\<lambda>(key, pred_data). index (JStr key) \<noteq> None) predictions)
         \<and> total (finalize st') + not_found (finalize st') = length predictions"
proof -
  have "\<And>key pred_data gold_item res res' e.
      (key, pred_data) \<in> set predictions \<Longrightarrow> index (JStr key) = Some gold_item \<Longrightarrow>
      example pred_data gold_item res \<noteq> Inr (res', Some e)"
    using assms(4) by blast
  from lexical_loop_counts [OF assms(1) this] assms(2,3) matched_or_not [of index predictions]
  show ?thesis by (simp add: finalize_def)
qed

lemma cot_run_counts:
  assumes "cot_loop example index predictions initial_cot = Inr st'"
    and "\<forall>(key, pred_data) \<in> set predictions. \<forall>gold_item e.
           index (JStr key) = Some gold_item \<longrightarrow> example pred_data gold_item \<noteq> Inr (Inl e)"
  shows "cot_not_found st'
           = length (filter (\<lambda>(key, pred_data). index (JStr key) = None) predictions)
         \<and> total_count st'
           = length (filter (\<lambda>(key, pred_data). index (JStr key) \<noteq> None) predictions)
         \<and> total_count st' + cot_not_found st' = length predictions"
proof -
  have "\<And>key pred_data gold_item e.
      (key, pred_data) \<in> set predictions \<Longrightarrow> index (JStr key) = Some gold_item \<Longrightarrow>
      example pred_data gold_item \<noteq> Inr (Inl e)"
    using assms(2) by blast
  from cot_loop_counts [OF assms(1) this] matched_or_not [of index predictions]
  show ?thesis by (simp add: initial_cot_def)
qed

text \<open>
  Claim C2.  A scorer invocation is the guarded block of the loop body, run on one
  prediction and its gold record; \<open>Inr (res', Some e)\<close> (in the judge loops \<open>Inr (Inl e)\<close>)
  is that block raising \<open>e\<close>.  When the block raises for no prediction that has a gold
  record, the report of a run that returns counts in \<^verbatim>\<open>not_found\<close> exactly the
  predictions whose key has no gold record under the secondary key, and in
  \<^verbatim>\<open>total\<close> exactly the others, so that total + not\_found = number of predictions.  The
  claim names evaluate\_lotnlg (evaluate\_lotnlg.py) and evaluate\_all (cot\_eval.py); the
  other four loops count alike.
\<close>

theorem counts_add_up:
  "(evaluate_lotnlg env predictions gold_data = Inr (report, has_type_em)
      \<and> csv_index gold_data Map.empty = Inr index
      \<and> (\<forall>(key, pred_data) \<in> set predictions. \<forall>gold_item res res' e.
            index (JStr key) = Some gold_item \<longrightarrow>
            example_lotnlg env has_type_em pred_data gold_item res \<noteq> Inr (res', Some e))
     \<longrightarrow> not_found report
           = length (filter (\<lambda>(key, pred_data). index (JStr key) = None) predictions)
         \<and> total report
           = length (filter (\<lambda>(key, pred_data). index (JStr key) \<noteq> None) predictions)
         \<and> total report + not_found report = length predictions)
   \<and> (evaluate_all env predictions gold_data model = Inr (acc, st)
      \<and> csv_index gold_data Map.empty = Inr index
      \<and> (\<forall>(key, pred_data) \<in> set predictions. \<forall>gold_item e.
            index (JStr key) = Some gold_item \<longrightarrow>
            example_cot env model pred_data gold_item \<noteq> Inr (Inl e))
     \<longrightarrow> cot_not_found st
           = length (filter (\<lambda>(key, pred_data). index (JStr key) = None) predictions)
         \<and> total_count st
           = length (filter (\<lambda>(key, pred_data). index (JStr key) \<noteq> None) predictions)
         \<and> total_count st + cot_not_found st = length predictions)
   \<and> (evaluate_logicnlg env predictions gold_data = Inr (report, has_type_em)
      \<and> csv_index gold_data Map.empty = Inr index
      \<and> (\<forall>(key, pred_data) \<in> set predictions. \<forall>gold_item res res' e.
            index (JStr key) = Some gold_item \<longrightarrow>
            example_logicnlg env has_type_em pred_data gold_item res \<noteq> Inr (res', Some e))
     \<longrightarrow> not_found report
           = length (filter (\<lambda>(key, pred_data). index (JStr key) = None) predictions)
         \<and> total report
           = length (filter (\<lambda>(key, pred_data). index (JStr key) \<noteq> None) predictions)
         \<and> total report + not_found report = length predictions)
   \<and> (evaluate_fetaqa env predictions gold_data = Inr report
      \<and> feta_index env gold_data Map.empty = Inr index
      \<and> (\<forall>(key, pred_data) \<in> set predictions. \<forall>gold_item res res' e.
            index (JStr key) = Some gold_item \<longrightarrow>
            example_fetaqa env pred_data gold_item res \<noteq> Inr (res', Some e))
     \<longrightarrow> not_found report
           = length (filter (\<lambda>(key, pred_data). index (JStr key) = None) predictions)
         \<and> total report
           = length (filter (\<lambda>(key, pred_data). index (JStr key) \<noteq> None) predictions)
         \<and> total report + not_found report = length predictions)
   \<and> (evaluate_all_lotnlg env predictions gold_data model = Inr (acc, st)
      \<and> csv_index gold_data Map.empty = Inr index
      \<and> (\<forall>(key, pred_data) \<in> set predictions. \<forall>gold_item e.
            index (JStr key) = Some gold_item \<longrightarrow>
            example_cot_lotnlg env model pred_data gold_item \<noteq> Inr (Inl e))
     \<longrightarrow> cot_not_found st
           = length (filter (\<lambda>(key, pred_data). index (JStr key) = None) predictions)
         \<and> total_count st
           = length (filter (\<lambda>(key, pred_data). index (JStr key) \<noteq> None) predictions)
         \<and> total_count st + cot_not_found st = length predictions)
   \<and> (evaluate_all_fetaqa env predictions gold_data model = Inr (acc, st)
      \<and> feta_index env gold_data Map.empty = Inr index
      \<and> (\<forall>(key, pred_data) \<in> set predictions. \<forall>gold_item e.
            index (JStr key) = Some gold_item \<longrightarrow>
            example_cot_fetaqa env model pred_data gold_item \<noteq> Inr (Inl e))
     \<longrightarrow> cot_not_found st
           = length (filter (\<lambda>(key, pred_data). index (JStr key) = None) predictions)
         \<and> total_count st
           = length (filter (\<lambda>(key, pred_data). index (JStr key) \<noteq> None) predictions)
         \<and> total_count st + cot_not_found st = length predictions)"
proof (intro conjI impI; elim conjE)
  assume "evaluate_lotnlg env predictions gold_data = Inr (report, has_type_em)"
    and i: "csv_index gold_data Map.empty = Inr index"
    and h: "\<forall>(key, pred_data) \<in> set predictions. \<forall>gold_item res res' e.
            index (JStr key) = Some gold_item \<longrightarrow>
            example_lotnlg env has_type_em pred_data gold_item res \<noteq> Inr (res', Some e)"
  with i obtain st where
    l: "lexical_loop (example_lotnlg env has_type_em) index predictions (initial_nlg has_type_em)
        = Inr st"
    and r: "report = finalize st"
    by (auto simp: evaluate_lotnlg_def bind_exn_def split: sum.splits)
  from lexical_run_counts [OF l _ _ h]
  show "not_found report
           = length (filter (\<lambda>(key, pred_data). index (JStr key) = None) predictions)"
    and "total report
           = length (filter (\<lambda>(key, pred_data). index (JStr key) \<noteq> None) predictions)"
    and "total report + not_found report = length predictions"
    unfolding r by (simp_all add: initial_nlg_def)
next
  assume "evaluate_logicnlg env predictions gold_data = Inr (report, has_type_em)"
    and i: "csv_index gold_data Map.empty = Inr index"
    and h: "\<forall>(key, pred_data) \<in> set predictions. \<forall>gold_item res res' e.
            index (JStr key) = Some gold_item \<longrightarrow>
            example_logicnlg env has_type_em pred_data gold_item res \<noteq> Inr (res', Some e)"
  with i obtain st where
    l: "lexical_loop (example_logicnlg env has_type_em) index predictions (initial_nlg has_type_em)
        = Inr st"
    and r: "report = finalize st"
    by (auto simp: evaluate_logicnlg_def bind_exn_def split: sum.splits)
  from lexical_run_counts [OF l _ _ h]
  show "not_found report
           = length (filter (\<lambda>(key, pred_data). index (JStr key) = None) predictions)"
    and "total report
           = length (filter (\<lambda>(key, pred_data). index (JStr key) \<noteq> None) predictions)"
    and "total report + not_found report = length predictions"
    unfolding r by (simp_all add: initial_nlg_def)
next
  assume "evaluate_fetaqa env predictions gold_data = Inr report"
    and i: "feta_index env gold_data Map.empty = Inr index"
    and h: "\<forall>(key, pred_data) \<in> set predictions. \<forall>gold_item res res' e.
            index (JStr key) = Some gold_item \<longrightarrow>
            example_fetaqa env pred_data gold_item res \<noteq> Inr (res', Some e)"
  with i obtain st where
    l: "lexical_loop (example_fetaqa env) index predictions initial_fetaqa = Inr st"
    and r: "report = finalize st"
    by (auto simp: evaluate_fetaqa_def bind_exn_def split: sum.splits)
  from lexical_run_counts [OF l _ _ h]
  show "not_found report
           = length (filter (\<lambda>(key, pred_data). index (JStr key) = None) predictions)"
    and "total report
           = length (filter (\<lambda>(key, pred_data). index (JStr key) \<noteq> None) predictions)"
    and "total report + not_found report = length predictions"
    unfolding r by (simp_all add: initial_fetaqa_def)
next
  assume "evaluate_all env predictions gold_data model = Inr (acc, st)"
    and i: "csv_index gold_data Map.empty = Inr index"
    and h: "\<forall>(key, pred_data) \<in> set predictions. \<forall>gold_item e.
            index (JStr key) = Some gold_item \<longrightarrow>
            example_cot env model pred_data gold_item \<noteq> Inr (Inl e)"
  with i have l: "cot_loop (example_cot env model) index predictions initial_cot = Inr st"
    by (auto simp: evaluate_all_def bind_exn_def split: sum.splits)
  from cot_run_counts [OF l h]
  show "cot_not_found st
           = length (filter (\<lambda>(key, pred_data). index (JStr key) = None) predictions)"
    and "total_count st
           = length (filter (\<lambda>(key, pred_data). index (JStr key) \<noteq> None) predictions)"
    and "total_count st + cot_not_found st = length predictions"
    by simp_all
next
  assume "evaluate_all_lotnlg env predictions gold_data model = Inr (acc, st)"
    and i: "csv_index gold_data Map.empty = Inr index"
    and h: "\<forall>(key, pred_data) \<in> set predictions. \<forall>gold_item e.
            index (JStr key) = Some gold_item \<longrightarrow>
            example_cot_lotnlg env model pred_data gold_item \<noteq> Inr (Inl e)"
  with i have l: "cot_loop (example_cot_lotnlg env model) index predictions initial_cot = Inr st"
    by (auto simp: evaluate_all_lotnlg_def bind_exn_def split: sum.splits)
  from cot_run_counts [OF l h]
  show "cot_not_found st
           = length (filter (\<lambda>(key, pred_data). index (JStr key) = None) predictions)"
    and "total_count st
           = length (filter (\<lambda>(key, pred_data). index (JStr key) \<noteq> None) predictions)"
    and "total_count st + cot_not_found st = length predictions"
    by simp_all
next
  assume "evaluate_all_fetaqa env predictions gold_data model = Inr (acc, st)"
    and i: "feta_index env gold_data Map.empty = Inr index"
    and h: "\<forall>(key, pred_data) \<in> set predictions. \<forall>gold_item e.
            index (JStr key) = Some gold_item \<longrightarrow>
            example_cot_fetaqa env model pred_data gold_item \<noteq> Inr (Inl e)"
  with i have l: "cot_loop (example_cot_fetaqa env model) index predictions initial_cot = Inr st"
    by (auto simp: evaluate_all_fetaqa_def bind_exn_def split: sum.splits)
  from cot_run_counts [OF l h]
  show "cot_not_found st
           = length (filter (\<lambda>(key, pred_data). index (JStr key) = None) predictions)"
    and "total_count st
           = length (filter (\<lambda>(key, pred_data). index (JStr key) \<noteq> None) predictions)"
    and "total_count st + cot_not_found st = length predictions"
    by simp_all
qed

text \<open>The two predictions with the gold file of Scenario A, and with the gold file of one
  answered question: one prediction is scored, the other is not found.\<close>

lemma scenario_ab_lexical_run:
  "evaluate_lotnlg metric_env scenario_ab_predictions scenario_a_gold =
     Inr (\<lparr>results = [(''nli_acc'', 100), (''rouge_l'', 100), (''bleu'', 0)],
            total = 1, not_found = 1, errors = []\<rparr>, False)"
  by (simp add: evaluate_lotnlg_def scenario_ab_predictions_def scenario_a_gold_def metric_env_def
        run_defs example_lotnlg_def score_nlg_def nli_entailment_def)

lemma scenario_ab_basic_run:
  "evaluate_logicnlg metric_env scenario_ab_predictions scenario_a_gold =
     Inr (\<lparr>results = [(''nli_acc'', 100), (''rouge_l'', 100), (''bleu'', 0)],
            total = 1, not_found = 1, errors = []\<rparr>, False)"
  by (simp add: evaluate_logicnlg_def scenario_ab_predictions_def scenario_a_gold_def metric_env_def
        run_defs example_logicnlg_def score_nlg_def nli_entailment_def)

lemma qa_lexical_run:
  "evaluate_fetaqa metric_env scenario_ab_predictions qa_gold =
     Inr \<lparr>results = [(''rouge1'', 100), (''rouge2'', 100), (''rougeL'', 100), (''bleu'', 0)],
           total = 1, not_found = 1, errors = []\<rparr>"
  by (simp add: evaluate_fetaqa_def scenario_ab_predictions_def qa_gold_def metric_env_def
        run_defs example_fetaqa_def score_fetaqa_def)

lemma scenario_ab_judge_run:
  "evaluate_all (judge_env (chat_response ''Answer: FAITHFUL'')) scenario_ab_predictions
       scenario_a_gold ''sonar'' =
     Inr (100, \<lparr>total_score = 1, total_count = 1, cot_not_found = 1, cot_errors = []\<rparr>)"
  by (simp add: evaluate_all_def scenario_ab_predictions_def scenario_a_gold_def judge_env_def
        run_defs example_cot_def evaluate_single_def judge_def response_content_chat_response
        verdict_def)

lemma scenario_ab_judge_run_lotnlg:
  "evaluate_all_lotnlg (judge_env (chat_response ''Answer: FAITHFUL'')) scenario_ab_predictions
       scenario_a_gold ''sonar'' =
     Inr (100, \<lparr>total_score = 1, total_count = 1, cot_not_found = 1, cot_errors = []\<rparr>)"
  by (simp add: evaluate_all_lotnlg_def scenario_ab_predictions_def scenario_a_gold_def
        judge_env_def run_defs example_cot_lotnlg_def evaluate_single_lotnlg_def judge_def
        response_content_chat_response verdict_def)

lemma qa_judge_run:
  "evaluate_all_fetaqa (judge_env (chat_response ''INCORRECT'')) scenario_ab_predictions qa_gold
       ''sonar'' =
     Inr (0, \<lparr>total_score = 0, total_count = 1, cot_not_found = 1, cot_errors = []\<rparr>)"
  by (simp add: evaluate_all_fetaqa_def scenario_ab_predictions_def qa_gold_def judge_env_def
        run_defs example_cot_fetaqa_def evaluate_single_fetaqa_def judge_def
        response_content_chat_response verdict_def)

lemma scenario_a_index:
  "csv_index scenario_a_gold Map.empty =
     Inr [JStr ''t1'' \<mapsto>
       JObj [(''csv_id'', JStr ''t1''),
             (''table_text'', JStr (''Year|Sales'' @ newline @ ''2020|500'')),
             (''sentences'', JList [JStr ''Total sales were 500 in 2020.''])]]"
  by (simp add: scenario_a_gold_def run_defs)

lemma qa_index:
  "feta_index env qa_gold Map.empty =
     Inr [JStr ''t1'' \<mapsto>
       JObj [(''feta_id'', JStr ''t1''), (''table_text'', JStr ''T''),
             (''question'', JStr ''q''), (''answer'', JStr ''x'')]]"
  by (simp add: qa_gold_def run_defs)

theorem counts_add_up_witness:
  "evaluate_lotnlg metric_env scenario_ab_predictions scenario_a_gold =
     Inr (\<lparr>results = [(''nli_acc'', 100), (''rouge_l'', 100), (''bleu'', 0)],
            total = 1, not_found = 1, errors = []\<rparr>, False)
   \<and> evaluate_all (judge_env (chat_response ''Answer: FAITHFUL'')) scenario_ab_predictions
       scenario_a_gold ''sonar'' =
     Inr (100, \<lparr>total_score = 1, total_count = 1, cot_not_found = 1, cot_errors = []\<rparr>)
   \<and> evaluate_fetaqa metric_env scenario_ab_predictions qa_gold =
     Inr \<lparr>results = [(''rouge1'', 100), (''rouge2'', 100), (''rougeL'', 100), (''bleu'', 0)],
           total = 1, not_found = 1, errors = []\<rparr>
   \<and> evaluate_all_fetaqa (judge_env (chat_response ''INCORRECT'')) scenario_ab_predictions
       qa_gold ''sonar'' =
     Inr (0, \<lparr>total_score = 0, total_count = 1, cot_not_found = 1, cot_errors = []\<rparr>)
   \<and> (1::nat) + 1 = length scenario_ab_predictions"
proof -
  let ?nlg = "\<lparr>results = [(''nli_acc'', 100), (''rouge_l'', 100), (''bleu'', 0)],
                total = 1, not_found = 1, errors = []\<rparr>"
  let ?qa = "\<lparr>results = [(''rouge1'', 100), (''rouge2'', 100), (''rougeL'', 100), (''bleu'', 0)],
               total = 1, not_found = 1, errors = []\<rparr>"
  let ?faithful = "\<lparr>total_score = 1, total_count = 1, cot_not_found = 1, cot_errors = []\<rparr>"
  let ?incorrect = "\<lparr>total_score = 0, total_count = 1, cot_not_found = 1, cot_errors = []\<rparr>"
  let ?judge = "judge_env (chat_response ''Answer: FAITHFUL'')"
  let ?qa_judge = "judge_env (chat_response ''INCORRECT'')"
  let ?a = "[JStr ''t1'' \<mapsto>
       JObj [(''csv_id'', JStr ''t1''),
             (''table_text'', JStr (''Year|Sales'' @ newline @ ''2020|500'')),
             (''sentences'', JList [JStr ''Total sales were 500 in 2020.''])]]"
  let ?q = "[JStr ''t1'' \<mapsto>
       JObj [(''feta_id'', JStr ''t1''), (''table_text'', JStr ''T''),
             (''question'', JStr ''q''), (''answer'', JStr ''x'')]]"
  have h1: "\<forall>(key, pred_data) \<in> set scenario_ab_predictions. \<forall>gold_item res res' e.
              ?a (JStr key) = Some gold_item \<longrightarrow>
              example_lotnlg metric_env False pred_data gold_item res \<noteq> Inr (res', Some e)"
    by (simp add: scenario_ab_predictions_def metric_env_def run_defs example_lotnlg_def
          score_nlg_def nli_entailment_def)
  have h2: "\<forall>(key, pred_data) \<in> set scenario_ab_predictions. \<forall>gold_item e.
              ?a (JStr key) = Some gold_item \<longrightarrow>
              example_cot ?judge ''sonar'' pred_data gold_item \<noteq> Inr (Inl e)"
    by (simp add: scenario_ab_predictions_def judge_env_def run_defs example_cot_def
          evaluate_single_def judge_def response_content_chat_response verdict_def)
  have h3: "\<forall>(key, pred_data) \<in> set scenario_ab_predictions. \<forall>gold_item res res' e.
              ?a (JStr key) = Some gold_item \<longrightarrow>
              example_logicnlg metric_env False pred_data gold_item res \<noteq> Inr (res', Some e)"
    by (simp add: scenario_ab_predictions_def metric_env_def run_defs example_logicnlg_def
          score_nlg_def nli_entailment_def)
  have h4: "\<forall>(key, pred_data) \<in> set scenario_ab_predictions. \<forall>gold_item res res' e.
              ?q (JStr key) = Some gold_item \<longrightarrow>
              example_fetaqa metric_env pred_data gold_item res \<noteq> Inr (res', Some e)"
    by (simp add: scenario_ab_predictions_def metric_env_def run_defs example_fetaqa_def
          score_fetaqa_def)
  have h5: "\<forall>(key, pred_data) \<in> set scenario_ab_predictions. \<forall>gold_item e.
              ?a (JStr key) = Some gold_item \<longrightarrow>
              example_cot_lotnlg ?judge ''sonar'' pred_data gold_item \<noteq> Inr (Inl e)"
    by (simp add: scenario_ab_predictions_def run_defs example_cot_lotnlg_def)
  have h6: "\<forall>(key, pred_data) \<in> set scenario_ab_predictions. \<forall>gold_item e.
              ?q (JStr key) = Some gold_item \<longrightarrow>
              example_cot_fetaqa ?qa_judge ''sonar'' pred_data gold_item \<noteq> Inr (Inl e)"
    by (simp add: scenario_ab_predictions_def run_defs example_cot_fetaqa_def)
  note nlg = counts_add_up [of metric_env scenario_ab_predictions scenario_a_gold
      ?nlg False ?a "''sonar''" 100 ?faithful]
  note judged = counts_add_up [of ?judge scenario_ab_predictions scenario_a_gold
      ?nlg False ?a "''sonar''" 100 ?faithful]
  note qa = counts_add_up [of metric_env scenario_ab_predictions qa_gold
      ?qa False ?q "''sonar''" 0 ?incorrect]
  note qa_judged = counts_add_up [of ?qa_judge scenario_ab_predictions qa_gold
      ?qa False ?q "''sonar''" 0 ?incorrect]
  have "total ?nlg + not_found ?nlg = length scenario_ab_predictions"
    using nlg [THEN conjunct1] scenario_ab_lexical_run scenario_a_index h1 by blast
  moreover have "total_count ?faithful + cot_not_found ?faithful = length scenario_ab_predictions"
    using judged [THEN conjunct2, THEN conjunct1] scenario_ab_judge_run scenario_a_index h2
    by blast
  moreover have "total ?nlg + not_found ?nlg = length scenario_ab_predictions"
    using nlg [THEN conjunct2, THEN conjunct2, THEN conjunct1]
      scenario_ab_basic_run scenario_a_index h3 by blast
  moreover have "total ?qa + not_found ?qa = length scenario_ab_predictions"
    using qa [THEN conjunct2, THEN conjunct2, THEN conjunct2, THEN conjunct1]
      qa_lexical_run qa_index [of metric_env] h4 by blast
  moreover have "total_count ?faithful + cot_not_found ?faithful = length scenario_ab_predictions"
    using judged [THEN conjunct2, THEN conjunct2, THEN conjunct2, THEN conjunct2, THEN conjunct1]
      scenario_ab_judge_run_lotnlg scenario_a_index h5 by blast
  moreover have "total_count ?incorrect + cot_not_found ?incorrect = length scenario_ab_predictions"
    using qa_judged [THEN conjunct2, THEN conjunct2, THEN conjunct2, THEN conjunct2, THEN conjunct2]
      qa_judge_run qa_index [of ?qa_judge] h6 by blast
  ultimately show ?thesis
    using scenario_ab_lexical_run scenario_ab_judge_run qa_lexical_run qa_judge_run by simp
qed

section \<open>Failures of the judge call\<close>

text \<open>
  Claim C3, as stated, fails.  With a chat completion that raises, the one matched
  example of evaluate\_all\_lotnlg (cot\_eval\_lotnlg.py) is not skipped: it is counted in
  \<^verbatim>\<open>total_count\<close> with the score 0, and the handler of the loop catches nothing.
\<close>

theorem failed_call_counted_as_zero:
  "judge metric_env ''sonar'' (COT_EVAL_PROMPT_LOTNLG ''T'' ''x'') ''FAITHFUL'' ''NOT FAITHFUL''
     = Inl ExternalError
   \<and> evaluate_all_lotnlg metric_env one_prediction table_only_gold ''sonar'' =
       Inr (0, \<lparr>total_score = 0, total_count = 1, cot_not_found = 0, cot_errors = []\<rparr>)"
  by (simp add: evaluate_all_lotnlg_def one_prediction_def table_only_gold_def metric_env_def
        judge_def run_defs example_cot_lotnlg_def evaluate_single_lotnlg_def)

text \<open>
  Claim C3, amended.  For a matched pair whose judge call or parse raises \<open>e\<close>:
  in cot\_eval.py the loop skips the example (neither \<^verbatim>\<open>total_score\<close> nor
  \<^verbatim>\<open>total_count\<close> changes, the error is printed); in cot\_eval\_lotnlg.py and
  cot\_eval\_fetaqa.py the function evaluate\_single\_... catches the failure itself and
  returns 0, and the loop adds 0 to \<^verbatim>\<open>total_score\<close> and 1 to \<^verbatim>\<open>total_count\<close>.
\<close>

theorem failed_call_handling:
  "(index (JStr key) = Some gold_item
      \<and> py_getitem gold_item ''table_text'' = Inr table_text
      \<and> judge env model (COT_EVAL_PROMPT (to_str env table_text) (to_str env pred_data))
           ''FAITHFUL'' ''NOT FAITHFUL'' = Inl e
     \<longrightarrow> cot_loop (example_cot env model) index ((key, pred_data) # rest) st
           = cot_loop (example_cot env model) index rest
               (st\<lparr>cot_errors := cot_errors st @ [(key, e)]\<rparr>))
   \<and> (index (JStr key) = Some gold_item
      \<and> prediction_text env pred_data = Inr pred_text
      \<and> py_get gold_item ''table_text'' (JStr []) = Inr table_text
      \<and> py_slice 1500 table_text = Inr table_text_trunc
      \<and> judge env model (COT_EVAL_PROMPT_LOTNLG (to_str env table_text_trunc) (take 800 pred_text))
           ''FAITHFUL'' ''NOT FAITHFUL'' = Inl e
     \<longrightarrow> cot_loop (example_cot_lotnlg env model) index ((key, pred_data) # rest) st
           = cot_loop (example_cot_lotnlg env model) index rest
               (st\<lparr>total_score := total_score st + 0, total_count := total_count st + 1\<rparr>))
   \<and> (index (JStr key) = Some gold_item
      \<and> prediction_text env pred_data = Inr pred_text
      \<and> py_get gold_item ''table_text'' (JStr []) = Inr table_text
      \<and> py_get gold_item ''question'' (JStr []) = Inr question
      \<and> py_get gold_item ''answer'' (JStr []) = Inr reference
      \<and> py_slice 1500 table_text = Inr table_text_trunc
      \<and> py_slice 500 reference = Inr reference_trunc
      \<and> judge env model
           (COT_EVAL_PROMPT_FETAQA (to_str env table_text_trunc) (to_str env question)
              (to_str env reference_trunc) (take 500 pred_text))
           ''CORRECT'' ''INCORRECT'' = Inl e
     \<longrightarrow> cot_loop (example_cot_fetaqa env model) index ((key, pred_data) # rest) st
           = cot_loop (example_cot_fetaqa env model) index rest
               (st\<lparr>total_score := total_score st + 0, total_count := total_count st + 1\<rparr>))"
  by (simp add: example_cot_def example_cot_lotnlg_def example_cot_fetaqa_def evaluate_single_def
        evaluate_single_lotnlg_def evaluate_single_fetaqa_def bind_exn_def)

theorem failed_call_handling_witness:
  "cot_loop (example_cot metric_env ''sonar'')
       [JStr ''t1'' \<mapsto> JObj [(''table_text'', JStr ''T'')]] one_prediction initial_cot
     = Inr \<lparr>total_score = 0, total_count = 0, cot_not_found = 0,
            cot_errors = [(''t1'', ExternalError)]\<rparr>
   \<and> cot_loop (example_cot_lotnlg metric_env ''sonar'')
       [JStr ''t1'' \<mapsto> JObj [(''table_text'', JStr ''T'')]] one_prediction initial_cot
     = Inr \<lparr>total_score = 0, total_count = 1, cot_not_found = 0, cot_errors = []\<rparr>
   \<and> cot_loop (example_cot_fetaqa metric_env ''sonar'')
       [JStr ''t1'' \<mapsto> JObj [(''table_text'', JStr ''T'')]] one_prediction initial_cot
     = Inr \<lparr>total_score = 0, total_count = 1, cot_not_found = 0, cot_errors = []\<rparr>"
  using
    failed_call_handling [of "[JStr ''t1'' \<mapsto> JObj [(''table_text'', JStr ''T'')]]" "''t1''"
      "JObj [(''table_text'', JStr ''T'')]" "JStr ''T''" metric_env "''sonar''" "JStr ''x''"
      ExternalError "[]" initial_cot "''x''" "JStr ''T''" "JStr []" "JStr []" "JStr []"]
  by (simp add: one_prediction_def initial_cot_def metric_env_def judge_def bind_exn_def
        prediction_text_def to_str_def)

section \<open>Exceptions outside the guarded block\<close>

text \<open>
  Claim C4 does not hold of the code.  The gold fields are read before \<^verbatim>\<open>try\<close>:
  with a matched gold record whose sentence list is empty (evaluate\_lotnlg.py and
  evaluate\_logicnlg.py) or that has no answer (evaluate\_fetaqa.py), the exception leaves
  the function and no report is produced, whatever the scorers do.
\<close>

theorem malformed_gold_aborts:
  "evaluate_lotnlg env one_prediction no_sentence_gold = Inl IndexError
   \<and> evaluate_logicnlg env one_prediction no_sentence_gold = Inl IndexError
   \<and> evaluate_fetaqa env one_prediction table_only_gold = Inl KeyError"
  by (simp add: evaluate_lotnlg_def evaluate_logicnlg_def evaluate_fetaqa_def one_prediction_def
        no_sentence_gold_def table_only_gold_def run_defs example_lotnlg_def example_logicnlg_def
        example_fetaqa_def)

section \<open>Finalization\<close>

text \<open>
  Claim C9 does not hold of the code.  The sums are updated inside the \<^verbatim>\<open>try\<close>
  block before \<^verbatim>\<open>total += 1\<close>; here the one matched example raises at
  \<^verbatim>\<open>gold_labels[0]\<close> after the entailment and ROUGE sums were updated, so the run
  ends with \<^verbatim>\<open>total = 0\<close>, the division is skipped, and the report holds the
  metrics 1 and 1 instead of 0.
\<close>

theorem sums_survive_skipped_example:
  "evaluate_lotnlg metric_env one_prediction no_label_gold =
     Inr (\<lparr>results = [(''nli_acc'', 1), (''rouge_l'', 1), (''bleu'', 0), (''type_em'', 0)],
            total = 0, not_found = 0, errors = [(''t1'', IndexError)]\<rparr>, True)"
  by (simp add: evaluate_lotnlg_def one_prediction_def no_label_gold_def metric_env_def
        run_defs example_lotnlg_def score_nlg_def nli_entailment_def type_match_def)

section \<open>An empty gold file\<close>

text \<open>
  Claim C10.  With a non-empty prediction mapping and an empty gold mapping, both lexical
  evaluators for LogicNLG/LoTNLG raise StopIteration (from
  \<^verbatim>\<open>next(iter(gold_data.values()))\<close>) instead of returning a report.
\<close>

theorem empty_gold_raises:
  "predictions \<noteq> [] \<Longrightarrow>
     evaluate_lotnlg env predictions [] = Inl StopIteration
     \<and> evaluate_logicnlg env predictions [] = Inl StopIteration"
  by (simp add: evaluate_lotnlg_def evaluate_logicnlg_def bind_exn_def first_value_def)

theorem empty_gold_raises_witness:
  "one_prediction \<noteq> []
   \<and> evaluate_lotnlg metric_env one_prediction [] = Inl StopIteration
   \<and> evaluate_logicnlg metric_env one_prediction [] = Inl StopIteration"
  using empty_gold_raises [of one_prediction metric_env] by (simp add: one_prediction_def)

section \<open>The keyword-type classifier against the gold label\<close>

text \<open>
  Claim C7, as stated, fails for evaluate\_logicnlg.py.  The prediction ``The total is 5''
  is classified as aggregation; the gold label Agg is a case-insensitive substring of
  that type, but the comparison of evaluate\_logicnlg.py does not succeed.
\<close>

theorem one_way_containment:
  "pred_type_logicnlg ''The total is 5'' = ''aggregation''
   \<and> sublist (py_lower ''Agg'') (py_lower ''aggregation'')
   \<and> \<not> type_hit_logicnlg ''aggregation'' ''Agg''"
  by (simp add: pred_type_logicnlg_def type_keywords_logicnlg_def type_hit_logicnlg_def
        text_defs sublist_code)

text \<open>
  Claim C7, amended.  In evaluate\_lotnlg.py the comparison succeeds if and only if the
  lower-cased prediction type occurs in the lower-cased gold label or the lower-cased gold
  label occurs in the lower-cased prediction type; in evaluate\_logicnlg.py it succeeds if
  and only if the lower-cased prediction type occurs in the lower-cased gold label.
\<close>

theorem type_hit_containment:
  "(type_hit_lotnlg pred_type gold_type \<longleftrightarrow>
      sublist (py_lower pred_type) (py_lower gold_type)
      \<or> sublist (py_lower gold_type) (py_lower pred_type))
   \<and> (type_hit_logicnlg pred_type gold_type \<longleftrightarrow>
      sublist (py_lower pred_type) (py_lower gold_type))"
  by (simp add: type_hit_lotnlg_def type_hit_logicnlg_def py_in_sublist)

theorem type_hit_containment_witness:
  "type_hit_lotnlg ''aggregation'' ''Agg'' \<and> type_hit_lotnlg ''count'' ''Count (exact)''
   \<and> \<not> type_hit_lotnlg ''count'' ''ordinal''
   \<and> type_hit_logicnlg ''count'' ''Count (exact)'' \<and> \<not> type_hit_logicnlg ''aggregation'' ''Agg''"
  using type_hit_containment [of "''aggregation''" "''Agg''"]
    type_hit_containment [of "''count''" "''Count (exact)''"]
    type_hit_containment [of "''count''" "''ordinal''"]
  by (simp add: text_defs sublist_code)

section \<open>The explicit label\<close>

lemma after_prefix_Some: "after_prefix p s = Some r \<longleftrightarrow> s = p @ r"
  by (induction p s rule: after_prefix.induct) auto

lemma takeWhile_until: "x \<notin> set l \<Longrightarrow> takeWhile (\<lambda>c. c \<noteq> x) (l @ x # r) = l"
  by (induction l) auto

lemma dropWhile_until: "x \<notin> set l \<Longrightarrow> dropWhile (\<lambda>c. c \<noteq> x) (l @ x # r) = x # r"
  by (induction l) auto

text \<open>The anchored pattern matches exactly the texts that start with a parenthesized,
  non-empty label without a closing parenthesis, directly followed by a colon.\<close>

lemma match_label_Some:
  "match_label s = Some label \<longleftrightarrow>
     (\<exists>post. s = ''('' @ label @ ''):'' @ post) \<and> label \<noteq> [] \<and> CHR '')'' \<notin> set label"
proof
  assume "match_label s = Some label"
  then obtain r1 r2 where r1: "s = ''('' @ r1"
    and r2: "dropWhile (\<lambda>c. c \<noteq> CHR '')'') r1 = ''):'' @ r2"
    and l: "label = takeWhile (\<lambda>c. c \<noteq> CHR '')'') r1" "label \<noteq> []"
    by (auto simp: match_label_def after_prefix_Some split: option.splits if_splits)
  have "r1 = label @ ''):'' @ r2"
    using takeWhile_dropWhile_id [of "\<lambda>c. c \<noteq> CHR '')''" r1] r2 l by simp
  moreover have "CHR '')'' \<notin> set label"
    using l(1) by (auto dest: set_takeWhileD)
  ultimately
  show "(\<exists>post. s = ''('' @ label @ ''):'' @ post) \<and> label \<noteq> [] \<and> CHR '')'' \<notin> set label"
    using r1 l by auto
next
  assume a: "(\<exists>post. s = ''('' @ label @ ''):'' @ post) \<and> label \<noteq> [] \<and> CHR '')'' \<notin> set label"
  then obtain post where s: "s = ''('' @ label @ ''):'' @ post" by blast
  from a have tw: "takeWhile (\<lambda>c. c \<noteq> CHR '')'') (label @ ''):'' @ post) = label"
    by (simp add: takeWhile_until)
  from a have dw: "dropWhile (\<lambda>c. c \<noteq> CHR '')'') (label @ ''):'' @ post) = ''):'' @ post"
    by (simp add: dropWhile_until)
  show "match_label s = Some label"
    using a tw dw unfolding s match_label_def
    by (simp add: after_prefix_Some split: option.splits)
qed

lemma search_label_Some:
  "search_label s = Some label \<Longrightarrow>
     \<exists>pre post. s = pre @ ''('' @ label @ ''):'' @ post \<and> label \<noteq> [] \<and> CHR '')'' \<notin> set label"
proof (induction s)
  case Nil
  then show ?case by simp
next
  case (Cons c cs)
  show ?case
  proof (cases "match_label (c # cs)")
    case None
    with Cons.prems have "search_label cs = Some label" by simp
    from Cons.IH [OF this] obtain pre post
      where "cs = pre @ ''('' @ label @ ''):'' @ post \<and> label \<noteq> [] \<and> CHR '')'' \<notin> set label"
      by blast
    then have "c # cs = (c # pre) @ ''('' @ label @ ''):'' @ post
                 \<and> label \<noteq> [] \<and> CHR '')'' \<notin> set label"
      by simp
    then show ?thesis by blast
  next
    case (Some l)
    with Cons.prems have "l = label" by simp
    with Some have "match_label (c # cs) = Some label" by simp
    then obtain post
      where "c # cs = [] @ ''('' @ label @ ''):'' @ post \<and> label \<noteq> [] \<and> CHR '')'' \<notin> set label"
      unfolding match_label_Some by auto
    then show ?thesis by blast
  qed
qed

lemma search_label_None:
  "search_label s = None \<Longrightarrow>
     \<not> (\<exists>pre label post. s = pre @ ''('' @ label @ ''):'' @ post
            \<and> label \<noteq> [] \<and> CHR '')'' \<notin> set label)"
proof (induction s)
  case Nil
  then show ?case by simp
next
  case (Cons c cs)
  from Cons.prems have m: "match_label (c # cs) = None" and s: "search_label cs = None"
    by (auto split: option.splits)
  show ?case
  proof
    assume "\<exists>pre label post. c # cs = pre @ ''('' @ label @ ''):'' @ post
              \<and> label \<noteq> [] \<and> CHR '')'' \<notin> set label"
    then obtain pre label post
      where d: "c # cs = pre @ ''('' @ label @ ''):'' @ post" "label \<noteq> []" "CHR '')'' \<notin> set label"
      by blast
    show False
    proof (cases pre)
      case Nil
      with d have "match_label (c # cs) = Some label"
        unfolding match_label_Some by auto
      with m show False by simp
    next
      case (Cons a pre')
      with d have "cs = pre' @ ''('' @ label @ ''):'' @ post" by simp
      with d Cons.IH [OF s] show False by blast
    qed
  qed
qed

text \<open>The search returns the label of the leftmost occurrence: the one with the shortest
  text before its opening parenthesis.\<close>

lemma search_label_leftmost:
  "s = pre @ ''('' @ label @ ''):'' @ post \<Longrightarrow> label \<noteq> [] \<Longrightarrow> CHR '')'' \<notin> set label \<Longrightarrow>
   (\<And>pre' label' post'.
      s = pre' @ ''('' @ label' @ ''):'' @ post' \<Longrightarrow> label' \<noteq> [] \<Longrightarrow> CHR '')'' \<notin> set label'
      \<Longrightarrow> length pre \<le> length pre') \<Longrightarrow>
   search_label s = Some label"
proof (induction pre arbitrary: s)
  case Nil
  then have "match_label s = Some label"
    unfolding match_label_Some by simp
  with Nil.prems(1) show ?case by simp
next
  case (Cons a pre)
  let ?t = "pre @ ''('' @ label @ ''):'' @ post"
  from Cons.prems(1) have s: "s = a # ?t" by simp
  have "match_label s = None"
  proof (cases "match_label s")
    case None
    then show ?thesis .
  next
    case (Some l)
    then obtain post' where "s = [] @ ''('' @ l @ ''):'' @ post'" "l \<noteq> []" "CHR '')'' \<notin> set l"
      unfolding match_label_Some by auto
    from Cons.prems(4) [OF this] show ?thesis by simp
  qed
  with s have "search_label s = search_label ?t" by simp
  also have "search_label ?t = Some label"
  proof (rule Cons.IH [OF refl Cons.prems(2,3)])
    fix pre' label' post'
    assume "?t = pre' @ ''('' @ label' @ ''):'' @ post'"
      and l: "label' \<noteq> []" "CHR '')'' \<notin> set label'"
    with s have "s = (a # pre') @ ''('' @ label' @ ''):'' @ post'" by simp
    from Cons.prems(4) [OF this l] show "length pre \<le> length pre'" by simp
  qed
  finally show ?case .
qed

text \<open>An opening parenthesis does not occur before the first one.\<close>

lemma first_paren:
  "CHR ''('' \<notin> set pre \<Longrightarrow> pre @ s = pre' @ CHR ''('' # t \<Longrightarrow> length pre \<le> length pre'"
proof (induction pre arbitrary: pre')
  case Nil
  then show ?case by simp
next
  case (Cons a pre)
  show ?case
  proof (cases pre')
    case Nil
    with Cons.prems show ?thesis by simp
  next
    case (Cons b pre'')
    with Cons.prems have "pre @ s = pre'' @ CHR ''('' # t" and "CHR ''('' \<notin> set pre"
      by simp_all
    from Cons.IH [OF this(2,1)] Cons show ?thesis by simp
  qed
qed

lemma no_paren: "CHR ''('' \<notin> set s \<Longrightarrow> s \<noteq> pre @ CHR ''('' # t"
  by auto

text \<open>
  Claim C8, as stated, fails for evaluate\_logicnlg.py, which has no explicit-label step:
  the prediction ``(count): the total is 5'' carries the label count before a colon, and
  its predicted type is aggregation, from the keyword ``total''.
\<close>

theorem label_ignored_by_logicnlg:
  "search_label ''(count): the total is 5'' = Some ''count''
   \<and> pred_type_logicnlg ''(count): the total is 5'' = ''aggregation''"
  by (simp add: match_label_def pred_type_logicnlg_def type_keywords_logicnlg_def text_defs)

text \<open>
  Claim C8, amended.  In evaluate\_lotnlg.py: when the prediction text contains a
  parenthesized label (non-empty, without a closing parenthesis) directly before a colon,
  the predicted type is the label of the leftmost such occurrence (no other occurrence has
  a shorter text before its opening parenthesis), lower-cased and stripped, and the keyword
  inference is not used; when the text contains no such label, the predicted type is the
  result of the keyword inference.  In evaluate\_logicnlg.py the predicted type is always
  the result of the keyword inference.
\<close>

theorem explicit_label_override:
  "(pred_text = pre @ ''('' @ label @ ''):'' @ post \<and> label \<noteq> [] \<and> CHR '')'' \<notin> set label
      \<and> (\<forall>pre' label' post'.
            pred_text = pre' @ ''('' @ label' @ ''):'' @ post' \<and> label' \<noteq> []
              \<and> CHR '')'' \<notin> set label'
            \<longrightarrow> length pre \<le> length pre')
     \<longrightarrow> pred_type_lotnlg pred_text = py_strip (py_lower label))
   \<and> (\<not> (\<exists>pre label post. pred_text = pre @ ''('' @ label @ ''):'' @ post
             \<and> label \<noteq> [] \<and> CHR '')'' \<notin> set label)
     \<longrightarrow> pred_type_lotnlg pred_text = keyword_type type_keywords_lotnlg pred_text)
   \<and> pred_type_logicnlg pred_text = keyword_type type_keywords_logicnlg pred_text"
proof (intro conjI impI)
  assume a: "pred_text = pre @ ''('' @ label @ ''):'' @ post \<and> label \<noteq> []
      \<and> CHR '')'' \<notin> set label
      \<and> (\<forall>pre' label' post'.
            pred_text = pre' @ ''('' @ label' @ ''):'' @ post' \<and> label' \<noteq> []
              \<and> CHR '')'' \<notin> set label'
            \<longrightarrow> length pre \<le> length pre')"
  have "search_label pred_text = Some label"
  proof (rule search_label_leftmost)
    show "pred_text = pre @ ''('' @ label @ ''):'' @ post" using a by blast
    show "label \<noteq> []" using a by blast
    show "CHR '')'' \<notin> set label" using a by blast
    fix pre' label' post'
    assume "pred_text = pre' @ ''('' @ label' @ ''):'' @ post'" "label' \<noteq> []"
      "CHR '')'' \<notin> set label'"
    with a show "length pre \<le> length pre'" by blast
  qed
  then show "pred_type_lotnlg pred_text = py_strip (py_lower label)"
    by (simp add: pred_type_lotnlg_def)
next
  assume n: "\<not> (\<exists>pre label post. pred_text = pre @ ''('' @ label @ ''):'' @ post
             \<and> label \<noteq> [] \<and> CHR '')'' \<notin> set label)"
  have "search_label pred_text = None"
  proof (cases "search_label pred_text")
    case None
    then show ?thesis .
  next
    case (Some label)
    from search_label_Some [OF this] n show ?thesis by blast
  qed
  then show "pred_type_lotnlg pred_text = keyword_type type_keywords_lotnlg pred_text"
    by (simp add: pred_type_lotnlg_def)
next
  show "pred_type_logicnlg pred_text = keyword_type type_keywords_logicnlg pred_text"
    by (simp add: pred_type_logicnlg_def)
qed

text \<open>Two labels in one text, a label that contains an opening parenthesis, Scenario D of
  the specification, a label with capitals and blanks, and a prediction without a
  label.\<close>

theorem explicit_label_override_witness:
  "pred_type_lotnlg ''(a): (b): x'' = ''a''
   \<and> pred_type_lotnlg ''((a): x'' = ''(a''
   \<and> pred_type_lotnlg ''Claim 1 (count): There are 5 rows. Claim 2: irrelevant.'' = ''count''
   \<and> pred_type_lotnlg ''Claim 1 ( Count ): The total is 5.'' = ''count''
   \<and> pred_type_lotnlg ''The total is 5'' = ''aggregation''"
proof -
  have "pred_type_lotnlg ''(a): (b): x'' = py_strip (py_lower ''a'')"
    using explicit_label_override [of "''(a): (b): x''" "[]" "''a''" "'' (b): x''", THEN conjunct1]
    by simp
  moreover have "pred_type_lotnlg ''((a): x'' = py_strip (py_lower ''(a'')"
    using explicit_label_override [of "''((a): x''" "[]" "''(a''" "'' x''", THEN conjunct1]
    by simp
  moreover have "pred_type_lotnlg ''Claim 1 (count): There are 5 rows. Claim 2: irrelevant.''
                   = py_strip (py_lower ''count'')"
    using explicit_label_override
        [of "''Claim 1 (count): There are 5 rows. Claim 2: irrelevant.''" "''Claim 1 ''"
          "''count''" "'' There are 5 rows. Claim 2: irrelevant.''", THEN conjunct1]
      first_paren [of "''Claim 1 ''" "''(count): There are 5 rows. Claim 2: irrelevant.''"]
    by auto
  moreover have "pred_type_lotnlg ''Claim 1 ( Count ): The total is 5.''
                   = py_strip (py_lower '' Count '')"
    using explicit_label_override
        [of "''Claim 1 ( Count ): The total is 5.''" "''Claim 1 ''"
          "'' Count ''" "'' The total is 5.''", THEN conjunct1]
      first_paren [of "''Claim 1 ''" "''( Count ): The total is 5.''"]
    by auto
  moreover have "pred_type_lotnlg ''The total is 5''
                   = keyword_type type_keywords_lotnlg ''The total is 5''"
    using explicit_label_override [of "''The total is 5''", THEN conjunct2, THEN conjunct1]
      no_paren [of "''The total is 5''"]
    by simp
  ultimately show ?thesis
    by (simp add: type_keywords_lotnlg_def text_defs)
qed

section \<open>The normalizer applied twice\<close>

lemma sub_headers_no_match: "\<not> matches_somewhere match_header s \<Longrightarrow> sub_headers s = s"
  by (induction s) auto

lemma findall_claims_no_match: "\<not> matches_somewhere match_claim s \<Longrightarrow> findall_claims s = []"
  by (induction s) (auto split: option.splits)

lemma sub_reasoning_no_match: "\<not> matches_somewhere match_reasoning s \<Longrightarrow> sub_reasoning s = s"
  by (induction s) auto

lemma sub_bold_no_match: "\<not> matches_somewhere match_bold s \<Longrightarrow> sub_bold s = s"
  by (induction s) (auto split: option.splits)

lemma split_from_words:
  "list_all (\<lambda>c. \<not> py_isspace c) acc \<Longrightarrow>
     list_all (\<lambda>w. w \<noteq> [] \<and> list_all (\<lambda>c. \<not> py_isspace c) w) (split_from acc z)"
  by (induction z arbitrary: acc) auto

lemma split_from_word:
  "list_all (\<lambda>c. \<not> py_isspace c) u \<Longrightarrow> split_from acc (u @ z) = split_from (acc @ u) z"
  by (induction u arbitrary: acc) auto

lemma split_join_words:
  "list_all (\<lambda>w. w \<noteq> [] \<and> list_all (\<lambda>c. \<not> py_isspace c) w) ws \<Longrightarrow>
     split_from [] (py_join '' '' ws) = ws"
proof (induction "'' ''" ws rule: py_join.induct)
  case 1
  show ?case by simp
next
  case (2 x)
  then show ?case using split_from_word [of x "[]" "[]"] by simp
next
  case (3 x y ys)
  then have "split_from [] (x @ '' '' @ py_join '' '' (y # ys)) = split_from x ('' '' @ py_join '' '' (y # ys))"
    using split_from_word [of x "[]"] by simp
  also have "\<dots> = x # split_from [] (py_join '' '' (y # ys))"
    using 3 by (simp add: py_isspace_def)
  finally show ?case using 3 by simp
qed

lemma collapse_idem:
  "py_join '' '' (py_split (py_join '' '' (py_split z))) = py_join '' '' (py_split z)"
  using split_join_words [OF split_from_words [of "[]" z]] by (simp add: py_split_def)

text \<open>
  Claim C5, as stated, fails.  The header pass removes the inner marker of
  \<^verbatim>\<open>### # x\<close> and leaves \<^verbatim>\<open>## x\<close>, which a second application changes
  again, to \<^verbatim>\<open>x\<close>.
\<close>

theorem normalizer_not_idempotent:
  "clean_prediction_text (clean_prediction_text ''### # x'') \<noteq> clean_prediction_text ''### # x''"
  by (simp add: clean_prediction_text_def match_claim_def match_reasoning_def match_bold_def
        py_split_def py_isspace_def py_isdigit_def)

text \<open>
  Claim C5, amended.  A second application of clean\_prediction\_text leaves the normalized
  text unchanged whenever that text contains no further match of the four patterns (header
  marker, enumerated claim, reasoning span, bold span).
\<close>

theorem normalizer_idempotent_on_clean_output:
  "\<not> matches_somewhere match_header (clean_prediction_text x)
   \<and> \<not> matches_somewhere match_claim (clean_prediction_text x)
   \<and> \<not> matches_somewhere match_reasoning (clean_prediction_text x)
   \<and> \<not> matches_somewhere match_bold (clean_prediction_text x)
   \<longrightarrow> clean_prediction_text (clean_prediction_text x) = clean_prediction_text x"
proof
  let ?y = "clean_prediction_text x"
  assume a: "\<not> matches_somewhere match_header ?y
   \<and> \<not> matches_somewhere match_claim ?y
   \<and> \<not> matches_somewhere match_reasoning ?y
   \<and> \<not> matches_somewhere match_bold ?y"
  obtain z where y: "?y = py_join '' '' (py_split z)"
    by (simp add: clean_prediction_text_def Let_def)
  have "clean_prediction_text ?y = py_join '' '' (py_split ?y)"
    using a
    by (simp add: clean_prediction_text_def [of ?y] Let_def sub_headers_no_match
          findall_claims_no_match sub_reasoning_no_match sub_bold_no_match)
  also have "\<dots> = ?y"
    unfolding y by (rule collapse_idem)
  finally show "clean_prediction_text ?y = ?y" .
qed

theorem normalizer_idempotent_witness:
  "clean_prediction_text ''## **Title**  of the   table'' = ''Title of the table''
   \<and> clean_prediction_text (clean_prediction_text ''## **Title**  of the   table'')
       = clean_prediction_text ''## **Title**  of the   table''"
proof -
  have c: "clean_prediction_text ''## **Title**  of the   table'' = ''Title of the table''"
    by (simp add: clean_prediction_text_def match_claim_def match_reasoning_def match_bold_def
        py_split_def py_isspace_def py_isdigit_def)
  have n: "\<not> matches_somewhere match_header ''Title of the table''
   \<and> \<not> matches_somewhere match_claim ''Title of the table''
   \<and> \<not> matches_somewhere match_reasoning ''Title of the table''
   \<and> \<not> matches_somewhere match_bold ''Title of the table''"
    by (simp add: match_claim_def match_reasoning_def match_bold_def)
  show ?thesis
    using normalizer_idempotent_on_clean_output [of "''## **Title**  of the   table''"] c n
    by simp
qed

section \<open>Markers in the normalized text\<close>

text \<open>
  Claim C6.  The normalizer is meant to remove the markdown headers and the bold markers
  (its description says \<^verbatim>\<open>Removing markdown headers (##)\<close>), and it goes over the
  text once for each of them: what a removal brings together is not looked at again, and
  a run of three hash signs loses only its last two.  So the normalized text of an input with markers can still
  contain a header marker (two hash signs followed by white space), a bold span, or a hash
  sign of the header.
\<close>

theorem markers_left_behind:
  "py_in ''##'' ''### # x'' \<and> py_in ''**'' ''****a****'' \<and> py_in ''##'' ''### Summary''
   \<and> clean_prediction_text ''### # x'' = ''## x''
   \<and> matches_somewhere match_header (clean_prediction_text ''### # x'')
   \<and> clean_prediction_text ''****a****'' = ''**a**''
   \<and> matches_somewhere match_bold (clean_prediction_text ''****a****'')
   \<and> clean_prediction_text ''### Summary'' = ''#Summary''"
  by (simp add: clean_prediction_text_def match_claim_def match_reasoning_def match_bold_def
        py_split_def py_isspace_def py_isdigit_def)

text \<open>The rest of the section describes inputs on which the two passes do remove every
  marker.\<close>

lemma match_header_Some:
  "match_header s = Some r \<longleftrightarrow>
     (\<exists>w rest. s = CHR ''#'' # CHR ''#'' # w # rest \<and> py_isspace w \<and> r = dropWhile py_isspace rest)"
  by (induction s rule: match_header.induct) auto

lemma sub_headers_starts_hash:
  "sub_headers s = CHR ''#'' # t \<Longrightarrow> \<exists>s'. s = CHR ''#'' # s'"
  by (cases s) (auto simp: match_header_Some split: option.splits)

lemma sub_headers_starts_space:
  "sub_headers s = w # t \<Longrightarrow> py_isspace w \<Longrightarrow> \<exists>s'. s = w # s'"
proof (induction s rule: sub_headers.induct)
  case 1
  then show ?case by simp
next
  case (2 c cs)
  show ?case
  proof (cases "match_header (c # cs)")
    case None
    with 2 show ?thesis by simp
  next
    case (Some r)
    with 2 have "\<exists>s'. r = w # s'" by simp
    moreover from Some obtain rest where "r = dropWhile py_isspace rest"
      unfolding match_header_Some by blast
    ultimately have False
      using 2(4) by (metis hd_dropWhile list.sel(1) list.distinct(1))
    then show ?thesis ..
  qed
qed

lemma sublist_behind: "sublist p r \<Longrightarrow> sublist p (q @ r)"
  unfolding sublist_def by (metis append_assoc)

lemma header_pass_leaves_no_header:
  "\<not> sublist ''###'' s \<Longrightarrow> \<not> matches_somewhere match_header (sub_headers s)"
proof (induction s rule: sub_headers.induct)
  case 1
  then show ?case by simp
next
  case (2 c cs)
  show ?case
  proof (cases "match_header (c # cs)")
    case (Some r)
    then obtain w rest where s: "c # cs = CHR ''#'' # CHR ''#'' # w # rest"
      and r: "r = dropWhile py_isspace rest"
      unfolding match_header_Some by blast
    have "c # cs = (CHR ''#'' # CHR ''#'' # w # takeWhile py_isspace rest) @ r"
      unfolding s r by simp
    with "2.prems" have "\<not> sublist ''###'' r"
      using sublist_behind by metis
    with "2.IH" Some show ?thesis by simp
  next
    case None
    have "\<not> sublist ''###'' cs"
      using "2.prems" sublist_behind [of "''###''" cs "[c]"] by auto
    with "2.IH" None have ih: "\<not> matches_somewhere match_header (sub_headers cs)" by simp
    have "match_header (c # sub_headers cs) = None"
    proof (rule ccontr)
      assume "match_header (c # sub_headers cs) \<noteq> None"
      then obtain w rest where c: "c = CHR ''#''" and out: "sub_headers cs = CHR ''#'' # w # rest"
        and w: "py_isspace w"
        by (auto simp: match_header_Some)
      from sub_headers_starts_hash [OF out] obtain cs2 where cs: "cs = CHR ''#'' # cs2" by blast
      have nm: "match_header cs = None"
      proof (rule ccontr)
        assume "match_header cs \<noteq> None"
        then obtain cs3 where "cs = CHR ''#'' # CHR ''#'' # cs3"
          by (auto simp: match_header_Some)
        with c have "c # cs = [] @ ''###'' @ cs3" by simp
        then have "sublist ''###'' (c # cs)" unfolding sublist_def by blast
        with "2.prems" show False by simp
      qed
      with cs out have "sub_headers cs2 = w # rest" by simp
      from sub_headers_starts_space [OF this w] obtain s' where "cs2 = w # s'" by blast
      with c cs w have "match_header (c # cs) \<noteq> None" by simp
      with None show False by simp
    qed
    with ih None show ?thesis by simp
  qed
qed

lemma py_join_Cons:
  "py_join sep (x # ws) = (if ws = [] then x else x @ sep @ py_join sep ws)"
  by (cases ws) auto

lemma collapse_reflects_aux:
  assumes mono_r: "\<And>a b. M a \<Longrightarrow> M (a @ b)"
    and mono_l: "\<And>c b. M b \<Longrightarrow> M (c # b)"
    and repl: "\<And>a w c b. py_isspace w \<Longrightarrow> py_isspace c \<Longrightarrow> M (a @ w # b) \<Longrightarrow> M (a @ c # b)"
    and dup: "\<And>a w c b. py_isspace w \<Longrightarrow> py_isspace c \<Longrightarrow> M (a @ w # b) \<Longrightarrow> M (a @ w # c # b)"
  shows "p = [] \<or> (\<exists>p0 w. p = p0 @ [w] \<and> py_isspace w) \<Longrightarrow>
         M (p @ py_join '' '' (split_from acc z)) \<Longrightarrow> M (p @ acc @ z)"
proof (induction z arbitrary: p acc)
  case Nil
  then show ?case by (cases "acc = []") simp_all
next
  case (Cons c cs)
  show ?case
  proof (cases "py_isspace c")
    case False
    with Cons.prems have "M (p @ py_join '' '' (split_from (acc @ [c]) cs))" by simp
    from Cons.IH [OF Cons.prems(1) this] show ?thesis by simp
  next
    case True
    show ?thesis
    proof (cases "acc = []")
      case True
      with \<open>py_isspace c\<close> Cons.prems have "M (p @ py_join '' '' (split_from [] cs))" by simp
      from Cons.IH [OF Cons.prems(1) this] have m: "M (p @ cs)" by simp
      from Cons.prems(1) show ?thesis
      proof
        assume "p = []"
        with m True show ?thesis by (simp add: mono_l)
      next
        assume "\<exists>p0 w. p = p0 @ [w] \<and> py_isspace w"
        then obtain p0 w where p: "p = p0 @ [w]" and w: "py_isspace w" by blast
        from m p have "M (p0 @ w # cs)" by simp
        from dup [OF w \<open>py_isspace c\<close> this] p True show ?thesis by simp
      qed
    next
      case False
      show ?thesis
      proof (cases "split_from [] cs = []")
        case True
        with False \<open>py_isspace c\<close> Cons.prems have "M (p @ acc)" by simp
        from mono_r [OF this] show ?thesis by simp
      next
        case ne: False
        with False \<open>py_isspace c\<close> Cons.prems
        have m: "M ((p @ acc @ '' '') @ py_join '' '' (split_from [] cs))"
          by (simp add: py_join_Cons)
        have sp: "py_isspace (CHR '' '')"
          by (simp add: py_isspace_def)
        have "p @ acc @ '' '' = (p @ acc) @ [CHR '' '']" by simp
        with sp have e: "p @ acc @ '' '' = [] \<or> (\<exists>p0 w. p @ acc @ '' '' = p0 @ [w] \<and> py_isspace w)"
          by blast
        from Cons.IH [OF e m] have "M ((p @ acc) @ CHR '' '' # cs)" by simp
        from repl [OF sp \<open>py_isspace c\<close> this] show ?thesis by simp
      qed
    qed
  qed
qed

lemma collapse_reflects:
  assumes mono_r: "\<And>a b. M a \<Longrightarrow> M (a @ b)"
    and mono_l: "\<And>c b. M b \<Longrightarrow> M (c # b)"
    and repl: "\<And>a w c b. py_isspace w \<Longrightarrow> py_isspace c \<Longrightarrow> M (a @ w # b) \<Longrightarrow> M (a @ c # b)"
    and dup: "\<And>a w c b. py_isspace w \<Longrightarrow> py_isspace c \<Longrightarrow> M (a @ w # b) \<Longrightarrow> M (a @ w # c # b)"
    and m: "M (py_join '' '' (py_split z))"
  shows "M z"
proof -
  have e: "([]::string) = [] \<or> (\<exists>p0 w. ([]::string) = p0 @ [w] \<and> py_isspace w)" by simp
  from m have "M ([] @ py_join '' '' (split_from [] z))"
    by (simp only: py_split_def append_Nil)
  from collapse_reflects_aux [of M, OF mono_r mono_l repl dup e this] show ?thesis
    by (simp only: append_Nil)
qed

lemma not_space_hash: "\<not> py_isspace CHR ''#''"
  by (simp add: py_isspace_def)

lemma header_somewhere_iff:
  "matches_somewhere match_header s \<longleftrightarrow>
     (\<exists>p w r. s = p @ CHR ''#'' # CHR ''#'' # w # r \<and> py_isspace w)"
proof (induction s)
  case Nil
  then show ?case by simp
next
  case (Cons c cs)
  show ?case
  proof
    assume "matches_somewhere match_header (c # cs)"
    then consider "match_header (c # cs) \<noteq> None" | "matches_somewhere match_header cs" by auto
    then show "\<exists>p w r. c # cs = p @ CHR ''#'' # CHR ''#'' # w # r \<and> py_isspace w"
    proof cases
      case 1
      then obtain w r where "c # cs = [] @ CHR ''#'' # CHR ''#'' # w # r \<and> py_isspace w"
        by (auto simp: match_header_Some)
      then show ?thesis by blast
    next
      case 2
      with Cons.IH obtain p w r where "cs = p @ CHR ''#'' # CHR ''#'' # w # r \<and> py_isspace w"
        by blast
      then have "c # cs = (c # p) @ CHR ''#'' # CHR ''#'' # w # r \<and> py_isspace w" by simp
      then show ?thesis by blast
    qed
  next
    assume "\<exists>p w r. c # cs = p @ CHR ''#'' # CHR ''#'' # w # r \<and> py_isspace w"
    then obtain p w r where d: "c # cs = p @ CHR ''#'' # CHR ''#'' # w # r" "py_isspace w"
      by blast
    show "matches_somewhere match_header (c # cs)"
    proof (cases p)
      case Nil
      with d show ?thesis by simp
    next
      case (Cons a p')
      with d have "cs = p' @ CHR ''#'' # CHR ''#'' # w # r" by simp
      with d Cons.IH have "matches_somewhere match_header cs" by blast
      then show ?thesis by simp
    qed
  qed
qed

lemma header_replace_space:
  "py_isspace w \<Longrightarrow> py_isspace c \<Longrightarrow> matches_somewhere match_header (a @ w # b)
     \<Longrightarrow> matches_somewhere match_header (a @ c # b)"
proof (induction a)
  case Nil
  then have "match_header (w # b) = None"
    by (cases b; cases "tl b") (auto simp: not_space_hash)
  with Nil show ?case by simp
next
  case (Cons x a)
  show ?case
  proof (cases "match_header (x # a @ w # b) \<noteq> None")
    case False
    with Cons show ?thesis by simp
  next
    case True
    have "match_header (x # a @ c # b) \<noteq> None"
    proof (cases a)
      case Nil
      with True Cons.prems(1) show ?thesis
        by (cases b) (auto simp: not_space_hash split: if_splits)
    next
      case (Cons y a')
      note a = this
      show ?thesis
      proof (cases a')
        case Nil
        with True a Cons.prems(1,2) show ?thesis by (simp split: if_splits)
      next
        case (Cons z a'')
        with True a show ?thesis by (simp split: if_splits)
      qed
    qed
    then show ?thesis by simp
  qed
qed

lemma header_double_space:
  "py_isspace w \<Longrightarrow> py_isspace c \<Longrightarrow> matches_somewhere match_header (a @ w # b)
     \<Longrightarrow> matches_somewhere match_header (a @ w # c # b)"
proof (induction a)
  case Nil
  then have "match_header (w # b) = None"
    by (cases b; cases "tl b") (auto simp: not_space_hash)
  with Nil show ?case by simp
next
  case (Cons x a)
  show ?case
  proof (cases "match_header (x # a @ w # b) \<noteq> None")
    case False
    with Cons show ?thesis by simp
  next
    case True
    have "match_header (x # a @ w # c # b) \<noteq> None"
    proof (cases a)
      case Nil
      with True Cons.prems(1) show ?thesis
        by (cases b) (auto simp: not_space_hash split: if_splits)
    next
      case (Cons y a')
      note a = this
      show ?thesis
      proof (cases a')
        case Nil
        with True a Cons.prems(1,2) show ?thesis by (simp split: if_splits)
      next
        case (Cons z a'')
        with True a show ?thesis by (simp split: if_splits)
      qed
    qed
    then show ?thesis by simp
  qed
qed

lemma header_append:
  "matches_somewhere match_header a \<Longrightarrow> matches_somewhere match_header (a @ b)"
proof -
  assume "matches_somewhere match_header a"
  then obtain p w r where "a = p @ CHR ''#'' # CHR ''#'' # w # r" "py_isspace w"
    unfolding header_somewhere_iff by blast
  then have "a @ b = p @ CHR ''#'' # CHR ''#'' # w # (r @ b) \<and> py_isspace w" by simp
  then show ?thesis unfolding header_somewhere_iff by blast
qed

lemma header_collapse:
  "matches_somewhere match_header (py_join '' '' (py_split z)) \<Longrightarrow> matches_somewhere match_header z"
proof (rule collapse_reflects [where M = "matches_somewhere match_header"])
  show "\<And>c b. matches_somewhere match_header b \<Longrightarrow> matches_somewhere match_header (c # b)"
    by simp
  show "\<And>a b. matches_somewhere match_header a \<Longrightarrow> matches_somewhere match_header (a @ b)"
    by (rule header_append)
  show "\<And>a w c b. py_isspace w \<Longrightarrow> py_isspace c \<Longrightarrow> matches_somewhere match_header (a @ w # b)
          \<Longrightarrow> matches_somewhere match_header (a @ c # b)"
    by (rule header_replace_space)
  show "\<And>a w c b. py_isspace w \<Longrightarrow> py_isspace c \<Longrightarrow> matches_somewhere match_header (a @ w # b)
          \<Longrightarrow> matches_somewhere match_header (a @ w # c # b)"
    by (rule header_double_space)
qed

lemma not_space_star: "py_isspace w \<Longrightarrow> w \<noteq> CHR ''*''"
  by (auto simp: py_isspace_def)

lemma match_bold_Some:
  "match_bold s = Some (body, r) \<longleftrightarrow>
     s = ''**'' @ body @ ''**'' @ r \<and> body \<noteq> [] \<and> CHR ''*'' \<notin> set body"
proof
  assume "match_bold s = Some (body, r)"
  then obtain r1 where r1: "s = ''**'' @ r1"
    and r2: "dropWhile (\<lambda>c. c \<noteq> CHR ''*'') r1 = ''**'' @ r"
    and b: "body = takeWhile (\<lambda>c. c \<noteq> CHR ''*'') r1" "body \<noteq> []"
    by (auto simp: match_bold_def after_prefix_Some split: option.splits if_splits)
  have "r1 = body @ ''**'' @ r"
    using takeWhile_dropWhile_id [of "\<lambda>c. c \<noteq> CHR ''*''" r1] r2 b by simp
  moreover have "CHR ''*'' \<notin> set body"
    using b(1) by (auto dest: set_takeWhileD)
  ultimately show "s = ''**'' @ body @ ''**'' @ r \<and> body \<noteq> [] \<and> CHR ''*'' \<notin> set body"
    using r1 b by simp
next
  assume a: "s = ''**'' @ body @ ''**'' @ r \<and> body \<noteq> [] \<and> CHR ''*'' \<notin> set body"
  then have tw: "takeWhile (\<lambda>c. c \<noteq> CHR ''*'') (body @ ''**'' @ r) = body"
    by (simp add: takeWhile_until)
  from a have dw: "dropWhile (\<lambda>c. c \<noteq> CHR ''*'') (body @ ''**'' @ r) = ''**'' @ r"
    by (simp add: dropWhile_until)
  show "match_bold s = Some (body, r)"
    using a tw dw unfolding match_bold_def
    by (simp add: after_prefix_Some split: option.splits)
qed

lemma match_bold_starts: "match_bold (c # cs) \<noteq> None \<Longrightarrow> c = CHR ''*'' \<and> (\<exists>cs'. cs = CHR ''*'' # cs')"
  by (cases "match_bold (c # cs)") (auto simp: match_bold_Some)

lemma match_bold_plain: "c \<noteq> CHR ''*'' \<Longrightarrow> match_bold (c # cs) = None"
  using match_bold_starts [of c cs] by blast

lemma sub_bold_plain: "CHR ''*'' \<notin> set u \<Longrightarrow> sub_bold (u @ r) = u @ sub_bold r"
proof (induction u)
  case Nil
  show ?case by simp
next
  case (Cons c u)
  then have "c \<noteq> CHR ''*''" by auto
  then have "match_bold (c # u @ r) = None"
    by (rule match_bold_plain)
  with Cons show ?case by simp
qed

lemma bold_somewhere_plain:
  "CHR ''*'' \<notin> set u \<Longrightarrow> matches_somewhere match_bold (u @ r) = matches_somewhere match_bold r"
proof (induction u)
  case Nil
  show ?case by simp
next
  case (Cons c u)
  then have "c \<noteq> CHR ''*''" by auto
  then have "match_bold (c # u @ r) = None"
    by (rule match_bold_plain)
  with Cons show ?case by simp
qed

lemma sub_bold_starts_star:
  "sub_bold s = CHR ''*'' # t \<Longrightarrow> \<exists>s'. s = CHR ''*'' # s' \<and> match_bold s = None \<and> t = sub_bold s'"
proof (cases s)
  case Nil
  assume "sub_bold s = CHR ''*'' # t"
  with Nil show ?thesis by simp
next
  case (Cons c cs)
  assume o: "sub_bold s = CHR ''*'' # t"
  show ?thesis
  proof (cases "match_bold (c # cs)")
    case None
    with o Cons show ?thesis by simp
  next
    case (Some br)
    obtain body r where "br = (body, r)" by (cases br)
    with Some have m: "match_bold (c # cs) = Some (body, r)" by simp
    then have "body \<noteq> []" "CHR ''*'' \<notin> set body" by (auto simp: match_bold_Some)
    moreover from o Cons m have "body @ sub_bold r = CHR ''*'' # t" by simp
    ultimately have False by (cases body) auto
    then show ?thesis ..
  qed
qed

lemma bold_pass_leaves_no_span:
  "\<not> sublist ''***'' s \<Longrightarrow> \<not> matches_somewhere match_bold (sub_bold s)"
proof (induction s rule: sub_bold.induct)
  case 1
  then show ?case by simp
next
  case (2 c cs)
  show ?case
  proof (cases "match_bold (c # cs)")
    case (Some br)
    obtain body r where br: "br = (body, r)" by (cases br)
    with Some have m: "match_bold (c # cs) = Some (body, r)" by simp
    then have s: "c # cs = (''**'' @ body @ ''**'') @ r" and b: "CHR ''*'' \<notin> set body"
      by (auto simp: match_bold_Some)
    from "2.prems" have "\<not> sublist ''***'' r"
      unfolding s using sublist_behind by metis
    with "2.IH"(2) m have "\<not> matches_somewhere match_bold (sub_bold r)" by simp
    with b m show ?thesis by (simp add: bold_somewhere_plain)
  next
    case None
    have "\<not> sublist ''***'' cs"
      using "2.prems" sublist_behind [of "''***''" cs "[c]"] by auto
    with "2.IH"(1) None have ih: "\<not> matches_somewhere match_bold (sub_bold cs)" by simp
    have "match_bold (c # sub_bold cs) = None"
    proof (rule ccontr)
      assume "match_bold (c # sub_bold cs) \<noteq> None"
      then obtain b r' where "match_bold (c # sub_bold cs) = Some (b, r')" by auto
      then have c: "c = CHR ''*''" and out: "sub_bold cs = CHR ''*'' # b @ ''**'' @ r'"
        and b: "b \<noteq> []" "CHR ''*'' \<notin> set b"
        by (auto simp: match_bold_Some)
      from sub_bold_starts_star [OF out] obtain cs2
        where cs: "cs = CHR ''*'' # cs2" and out2: "sub_bold cs2 = b @ ''**'' @ r'"
        by auto
      define u where "u = takeWhile (\<lambda>c. c \<noteq> CHR ''*'') cs2"
      define v where "v = dropWhile (\<lambda>c. c \<noteq> CHR ''*'') cs2"
      have uv: "cs2 = u @ v" by (simp add: u_def v_def)
      have u: "CHR ''*'' \<notin> set u" unfolding u_def by (auto dest: set_takeWhileD)
      have v: "v = [] \<or> (\<exists>v'. v = CHR ''*'' # v')"
      proof (cases v)
        case Nil
        then show ?thesis by simp
      next
        case (Cons x v')
        then have "dropWhile (\<lambda>c. c \<noteq> CHR ''*'') cs2 \<noteq> []" by (simp add: v_def)
        from hd_dropWhile [OF this] Cons have "x = CHR ''*''" by (simp add: v_def)
        with Cons show ?thesis by simp
      qed
      from out2 uv u have e: "u @ sub_bold v = b @ ''**'' @ r'" by (simp add: sub_bold_plain)
      have "cs2 \<noteq> []" using out2 b by auto
      moreover have "hd cs2 \<noteq> CHR ''*''"
      proof
        assume "hd cs2 = CHR ''*''"
        with \<open>cs2 \<noteq> []\<close> obtain cs3 where "cs2 = CHR ''*'' # cs3" by (cases cs2) auto
        with c cs have "c # cs = [] @ ''***'' @ cs3" by simp
        then have "sublist ''***'' (c # cs)" unfolding sublist_def by blast
        with "2.prems" show False by simp
      qed
      ultimately have une: "u \<noteq> []" unfolding u_def by (cases cs2) auto
      have "v \<noteq> []"
      proof
        assume "v = []"
        with e have "u = b @ ''**'' @ r'" by simp
        then have "CHR ''*'' \<in> set u" by simp
        with u show False by simp
      qed
      with v obtain v' where v': "v = CHR ''*'' # v'" by blast
      have nv: "\<not> (\<exists>v''. v' = CHR ''*'' # v'')"
      proof
        assume "\<exists>v''. v' = CHR ''*'' # v''"
        then obtain v'' where "v' = CHR ''*'' # v''" by blast
        with c cs uv v' have "c # cs = ''**'' @ u @ ''**'' @ v''" by simp
        with u une have "match_bold (c # cs) = Some (u, v'')" unfolding match_bold_Some by simp
        with None show False by simp
      qed
      then have "match_bold v = None"
        unfolding v' using match_bold_starts [of "CHR ''*''" v'] by blast
      with v' have sv: "sub_bold v = CHR ''*'' # sub_bold v'" by simp
      from e sv have "u @ CHR ''*'' # sub_bold v' = b @ CHR ''*'' # CHR ''*'' # r'" by simp
      then have "takeWhile (\<lambda>c. c \<noteq> CHR ''*'') (u @ CHR ''*'' # sub_bold v')
                   = takeWhile (\<lambda>c. c \<noteq> CHR ''*'') (b @ CHR ''*'' # CHR ''*'' # r')"
        and "dropWhile (\<lambda>c. c \<noteq> CHR ''*'') (u @ CHR ''*'' # sub_bold v')
                   = dropWhile (\<lambda>c. c \<noteq> CHR ''*'') (b @ CHR ''*'' # CHR ''*'' # r')"
        by simp_all
      with u b have "sub_bold v' = CHR ''*'' # r'"
        by (simp add: takeWhile_until dropWhile_until)
      from sub_bold_starts_star [OF this] nv show False by blast
    qed
    with ih None show ?thesis by simp
  qed
qed

lemma bold_append:
  "matches_somewhere match_bold a \<Longrightarrow> matches_somewhere match_bold (a @ b)"
proof (induction a)
  case Nil
  then show ?case by simp
next
  case (Cons x a)
  show ?case
  proof (cases "match_bold (x # a)")
    case None
    with Cons show ?thesis by simp
  next
    case (Some br)
    obtain body r where "br = (body, r)" by (cases br)
    with Some have "match_bold (x # a) = Some (body, r)" by simp
    then have "match_bold ((x # a) @ b) = Some (body, r @ b)"
      unfolding match_bold_Some by simp
    then show ?thesis by simp
  qed
qed

lemma dropWhile_plain:
  "x \<notin> set u \<Longrightarrow> dropWhile (\<lambda>c. c \<noteq> x) (u @ r) = dropWhile (\<lambda>c. c \<noteq> x) r"
  by (induction u) auto

lemma match_bold_block:
  assumes X: "X \<noteq> []" "CHR ''*'' \<notin> set X" and Y: "Y \<noteq> []" "CHR ''*'' \<notin> set Y"
    and m: "match_bold (x # a @ X @ b) \<noteq> None"
  shows "match_bold (x # a @ Y @ b) \<noteq> None"
proof -
  from m obtain body r where mb: "match_bold (x # a @ X @ b) = Some (body, r)" by auto
  then have e: "x # a @ X @ b = ''**'' @ body @ ''**'' @ r"
    and body: "body \<noteq> []" "CHR ''*'' \<notin> set body"
    by (auto simp: match_bold_Some)
  have "a \<noteq> []"
  proof
    assume "a = []"
    with e X show False by (cases X) auto
  qed
  with e obtain a2 where a: "a = CHR ''*'' # a2" and x: "x = CHR ''*''"
    and e2: "a2 @ X @ b = body @ ''**'' @ r"
    by (cases a) auto
  show ?thesis
  proof (cases "CHR ''*'' \<in> set a2")
    case True
    then obtain u a3 where a2: "a2 = u @ CHR ''*'' # a3" and u: "CHR ''*'' \<notin> set u"
      by (meson split_list_first)
    from e2 a2 have "u @ CHR ''*'' # (a3 @ X @ b) = body @ CHR ''*'' # (CHR ''*'' # r)" by simp
    then have "takeWhile (\<lambda>c. c \<noteq> CHR ''*'') (u @ CHR ''*'' # (a3 @ X @ b))
                 = takeWhile (\<lambda>c. c \<noteq> CHR ''*'') (body @ CHR ''*'' # (CHR ''*'' # r))"
      and "dropWhile (\<lambda>c. c \<noteq> CHR ''*'') (u @ CHR ''*'' # (a3 @ X @ b))
                 = dropWhile (\<lambda>c. c \<noteq> CHR ''*'') (body @ CHR ''*'' # (CHR ''*'' # r))"
      by simp_all
    with u body have ub: "u = body" and r: "a3 @ X @ b = CHR ''*'' # r"
      by (simp_all add: takeWhile_until dropWhile_until)
    have "a3 \<noteq> []"
    proof
      assume "a3 = []"
      with r X show False by (cases X) auto
    qed
    with r obtain a4 where a3: "a3 = CHR ''*'' # a4" by (cases a3) auto
    have "x # a @ Y @ b = ''**'' @ u @ ''**'' @ (a4 @ Y @ b)"
      using x a a2 a3 by simp
    with u ub body have "match_bold (x # a @ Y @ b) = Some (u, a4 @ Y @ b)"
      unfolding match_bold_Some by simp
    then show ?thesis by simp
  next
    case False
    define tb where "tb = takeWhile (\<lambda>c. c \<noteq> CHR ''*'') b"
    have tb: "CHR ''*'' \<notin> set tb" unfolding tb_def by (auto dest: set_takeWhileD)
    from e2 have "dropWhile (\<lambda>c. c \<noteq> CHR ''*'') (a2 @ X @ b)
                   = dropWhile (\<lambda>c. c \<noteq> CHR ''*'') (body @ CHR ''*'' # (CHR ''*'' # r))"
      by simp
    moreover have "dropWhile (\<lambda>c. c \<noteq> CHR ''*'') ((a2 @ X) @ b) = dropWhile (\<lambda>c. c \<noteq> CHR ''*'') b"
      using False X by (intro dropWhile_plain) simp
    ultimately have "dropWhile (\<lambda>c. c \<noteq> CHR ''*'') b = ''**'' @ r"
      using body by (simp add: dropWhile_until)
    then have "b = tb @ ''**'' @ r"
      unfolding tb_def using takeWhile_dropWhile_id [of "\<lambda>c. c \<noteq> CHR ''*''" b] by simp
    then have "x # a @ Y @ b = ''**'' @ (a2 @ Y @ tb) @ ''**'' @ r"
      using x a by simp
    moreover have "a2 @ Y @ tb \<noteq> []" "CHR ''*'' \<notin> set (a2 @ Y @ tb)"
      using False Y tb by auto
    ultimately have "match_bold (x # a @ Y @ b) = Some (a2 @ Y @ tb, r)"
      unfolding match_bold_Some by blast
    then show ?thesis by simp
  qed
qed

lemma bold_somewhere_block:
  assumes X: "X \<noteq> []" "CHR ''*'' \<notin> set X" and Y: "Y \<noteq> []" "CHR ''*'' \<notin> set Y"
  shows "matches_somewhere match_bold (a @ X @ b) \<Longrightarrow> matches_somewhere match_bold (a @ Y @ b)"
proof (induction a)
  case Nil
  with X Y show ?case by (simp add: bold_somewhere_plain)
next
  case (Cons x a)
  show ?case
  proof (cases "match_bold (x # a @ X @ b) \<noteq> None")
    case True
    from match_bold_block [OF X Y this] show ?thesis by simp
  next
    case False
    with Cons show ?thesis by simp
  qed
qed

lemma bold_replace_space:
  assumes "py_isspace w" "py_isspace c" "matches_somewhere match_bold (a @ w # b)"
  shows "matches_somewhere match_bold (a @ c # b)"
proof -
  from assms(1,2) have n: "CHR ''*'' \<notin> set [w]" "CHR ''*'' \<notin> set [c]"
    using not_space_star by auto
  from assms(3) have "matches_somewhere match_bold (a @ [w] @ b)" by simp
  from bold_somewhere_block [OF _ n(1) _ n(2) this] show ?thesis by simp
qed

lemma bold_double_space:
  assumes "py_isspace w" "py_isspace c" "matches_somewhere match_bold (a @ w # b)"
  shows "matches_somewhere match_bold (a @ w # c # b)"
proof -
  from assms(1,2) have n: "CHR ''*'' \<notin> set [w]" "CHR ''*'' \<notin> set [w, c]"
    using not_space_star by auto
  from assms(3) have "matches_somewhere match_bold (a @ [w] @ b)" by simp
  from bold_somewhere_block [OF _ n(1) _ n(2) this] show ?thesis by simp
qed

lemma bold_collapse:
  "matches_somewhere match_bold (py_join '' '' (py_split z)) \<Longrightarrow> matches_somewhere match_bold z"
proof (rule collapse_reflects [where M = "matches_somewhere match_bold"])
  show "\<And>c b. matches_somewhere match_bold b \<Longrightarrow> matches_somewhere match_bold (c # b)"
    by simp
  show "\<And>a b. matches_somewhere match_bold a \<Longrightarrow> matches_somewhere match_bold (a @ b)"
    by (rule bold_append)
  show "\<And>a w c b. py_isspace w \<Longrightarrow> py_isspace c \<Longrightarrow> matches_somewhere match_bold (a @ w # b)
          \<Longrightarrow> matches_somewhere match_bold (a @ c # b)"
    by (rule bold_replace_space)
  show "\<And>a w c b. py_isspace w \<Longrightarrow> py_isspace c \<Longrightarrow> matches_somewhere match_bold (a @ w # b)
          \<Longrightarrow> matches_somewhere match_bold (a @ w # c # b)"
    by (rule bold_double_space)
qed

lemma set_sub_headers: "set (sub_headers s) \<subseteq> set s"
proof (induction s rule: sub_headers.induct)
  case 1
  show ?case by simp
next
  case (2 c cs)
  show ?case
  proof (cases "match_header (c # cs)")
    case None
    with "2.IH"(1) show ?thesis by auto
  next
    case (Some r)
    then obtain w rest where "c # cs = CHR ''#'' # CHR ''#'' # w # rest" "r = dropWhile py_isspace rest"
      unfolding match_header_Some by blast
    then have "set r \<subseteq> set (c # cs)"
      by (auto dest: set_dropWhileD)
    with "2.IH"(2) Some show ?thesis by auto
  qed
qed

lemma match_header_plain: "c \<noteq> CHR ''#'' \<Longrightarrow> match_header (c # cs) = None"
  by (cases "match_header (c # cs)") (auto simp: match_header_Some)

lemma sub_headers_plain: "CHR ''#'' \<notin> set s \<Longrightarrow> sub_headers s = s"
proof (induction s)
  case Nil
  show ?case by simp
next
  case (Cons c s)
  then have "c \<noteq> CHR ''#''" by auto
  then have "match_header (c # s) = None" by (rule match_header_plain)
  with Cons show ?case by simp
qed

lemma match_claim_no_colon: "CHR '':'' \<notin> set s \<Longrightarrow> match_claim s = None"
proof -
  assume n: "CHR '':'' \<notin> set s"
  show ?thesis
  proof (cases "after_prefix ''Claim '' s")
    case None
    then show ?thesis by (simp add: match_claim_def)
  next
    case (Some r1)
    then have "s = ''Claim '' @ r1" by (simp add: after_prefix_Some)
    with n have "CHR '':'' \<notin> set (dropWhile py_isdigit r1)"
      by (auto dest: set_dropWhileD)
    then have d: "dropWhile (\<lambda>c. c \<noteq> CHR '':'') (dropWhile py_isdigit r1) = []"
      by (simp add: dropWhile_eq_Nil_conv) metis
    show ?thesis by (simp add: match_claim_def Some d del: dropWhile_eq_Nil_conv)
  qed
qed

lemma match_reasoning_no_colon: "CHR '':'' \<notin> set s \<Longrightarrow> match_reasoning s = None"
proof -
  assume n: "CHR '':'' \<notin> set s"
  show ?thesis
  proof (cases "after_prefix ''Reasoning'' s")
    case None
    then show ?thesis by (simp add: match_reasoning_def)
  next
    case (Some r1)
    then have "s = ''Reasoning'' @ r1" by (simp add: after_prefix_Some)
    with n have "CHR '':'' \<notin> set r1" by auto
    then have d: "dropWhile (\<lambda>c. c \<noteq> CHR '':'') r1 = []"
      by (simp add: dropWhile_eq_Nil_conv) metis
    show ?thesis by (simp add: match_reasoning_def Some d del: dropWhile_eq_Nil_conv)
  qed
qed

lemma findall_claims_no_colon: "CHR '':'' \<notin> set s \<Longrightarrow> findall_claims s = []"
  by (induction s) (simp_all add: match_claim_no_colon)

lemma sub_reasoning_no_colon: "CHR '':'' \<notin> set s \<Longrightarrow> sub_reasoning s = s"
  by (induction s) (simp_all add: match_reasoning_no_colon)

lemma clean_no_colon:
  assumes "CHR '':'' \<notin> set x"
  shows "clean_prediction_text x = py_join '' '' (py_split (sub_bold (sub_headers x)))"
proof -
  from assms set_sub_headers [of x] have "CHR '':'' \<notin> set (sub_headers x)" by auto
  then show ?thesis
    by (simp add: clean_prediction_text_def Let_def findall_claims_no_colon sub_reasoning_no_colon)
qed

lemma sublist2_Cons:
  "sublist [a, b] (c # cs) \<longleftrightarrow> (c = a \<and> (\<exists>cs'. cs = b # cs')) \<or> sublist [a, b] cs"
  by (cases cs) (auto simp: sublist_code)

lemma sublist3_Cons:
  "sublist [a, b, d] (c # cs) \<longleftrightarrow> (c = a \<and> (\<exists>cs'. cs = b # d # cs')) \<or> sublist [a, b, d] cs"
  by (cases cs; cases "tl cs") (auto simp: sublist_code)

lemma sub_headers_first:
  "sub_headers s = d # t \<Longrightarrow>
     (\<exists>s'. s = d # s' \<and> t = sub_headers s') \<or> (\<exists>r. s = CHR ''#'' # CHR ''#'' # r)"
  by (cases s) (auto simp: match_header_Some split: option.splits)

lemma sub_bold_first:
  "sub_bold s = d # t \<Longrightarrow>
     (\<exists>s'. s = d # s' \<and> t = sub_bold s') \<or> (\<exists>r. s = CHR ''*'' # CHR ''*'' # r)"
  by (cases s) (auto simp: match_bold_Some split: option.splits)

lemma header_pass_keeps_apart:
  "\<not> sublist ''#*'' s \<Longrightarrow> \<not> sublist ''###'' s \<Longrightarrow> \<not> sublist ''#*'' (sub_headers s)"
proof (induction s rule: sub_headers.induct)
  case 1
  then show ?case by simp
next
  case (2 c cs)
  show ?case
  proof (cases "match_header (c # cs)")
    case (Some r)
    then obtain w rest where "c # cs = CHR ''#'' # CHR ''#'' # w # rest" "r = dropWhile py_isspace rest"
      unfolding match_header_Some by blast
    then have s: "c # cs = (CHR ''#'' # CHR ''#'' # w # takeWhile py_isspace rest) @ r"
      by simp
    from "2.prems" have "\<not> sublist ''#*'' r" "\<not> sublist ''###'' r"
      unfolding s using sublist_behind by metis+
    with "2.IH"(2) Some show ?thesis by simp
  next
    case None
    from "2.prems" have "\<not> sublist ''#*'' cs" "\<not> sublist ''###'' cs"
      using sublist_behind [of _ cs "[c]"] by auto
    with "2.IH"(1) None have ih: "\<not> sublist ''#*'' (sub_headers cs)" by simp
    have "\<not> (c = CHR ''#'' \<and> (\<exists>t. sub_headers cs = CHR ''*'' # t))"
    proof
      assume "c = CHR ''#'' \<and> (\<exists>t. sub_headers cs = CHR ''*'' # t)"
      then obtain t where c: "c = CHR ''#''" and o: "sub_headers cs = CHR ''*'' # t" by blast
      from sub_headers_first [OF o] "2.prems" c show False
        by (auto simp: sublist2_Cons sublist3_Cons)
    qed
    with ih None show ?thesis by (auto simp: sublist2_Cons)
  qed
qed

lemma header_pass_keeps_stars:
  "\<not> sublist ''*#'' s \<Longrightarrow> \<not> sublist ''***'' s \<Longrightarrow> \<not> sublist ''***'' (sub_headers s)"
proof (induction s rule: sub_headers.induct)
  case 1
  then show ?case by simp
next
  case (2 c cs)
  show ?case
  proof (cases "match_header (c # cs)")
    case (Some r)
    then obtain w rest where "c # cs = CHR ''#'' # CHR ''#'' # w # rest" "r = dropWhile py_isspace rest"
      unfolding match_header_Some by blast
    then have s: "c # cs = (CHR ''#'' # CHR ''#'' # w # takeWhile py_isspace rest) @ r"
      by simp
    from "2.prems" have "\<not> sublist ''*#'' r" "\<not> sublist ''***'' r"
      unfolding s using sublist_behind by metis+
    with "2.IH"(2) Some show ?thesis by simp
  next
    case None
    from "2.prems" have "\<not> sublist ''*#'' cs" "\<not> sublist ''***'' cs"
      using sublist_behind [of _ cs "[c]"] by auto
    with "2.IH"(1) None have ih: "\<not> sublist ''***'' (sub_headers cs)" by simp
    have "\<not> (c = CHR ''*'' \<and> (\<exists>t. sub_headers cs = CHR ''*'' # CHR ''*'' # t))"
    proof
      assume "c = CHR ''*'' \<and> (\<exists>t. sub_headers cs = CHR ''*'' # CHR ''*'' # t)"
      then obtain t where c: "c = CHR ''*''" and o: "sub_headers cs = CHR ''*'' # CHR ''*'' # t"
        by blast
      from sub_headers_first [OF o] "2.prems" c obtain cs2
        where cs: "cs = CHR ''*'' # cs2" and o2: "sub_headers cs2 = CHR ''*'' # t"
        by (auto simp: sublist2_Cons)
      from sub_headers_first [OF o2] "2.prems" c cs show False
        by (auto simp: sublist2_Cons sublist3_Cons)
    qed
    with ih None show ?thesis by (auto simp: sublist3_Cons)
  qed
qed

lemma header_behind: "matches_somewhere match_header b \<Longrightarrow> matches_somewhere match_header (a @ b)"
  by (induction a) auto

lemma header_split:
  "matches_somewhere match_header (a @ b) \<Longrightarrow>
     matches_somewhere match_header a \<or> matches_somewhere match_header b
     \<or> (\<exists>a'. a = a' @ ''#'')"
proof (induction a)
  case Nil
  then show ?case by simp
next
  case (Cons x a)
  show ?case
  proof (cases "match_header (x # a @ b) \<noteq> None")
    case False
    with Cons.prems have "matches_somewhere match_header (a @ b)" by simp
    from Cons.IH [OF this] show ?thesis by auto
  next
    case True
    show ?thesis
    proof (cases a)
      case Nil
      with True have "x = CHR ''#''" by (auto simp: match_header_Some)
      with Nil show ?thesis by simp
    next
      case (Cons y a')
      note a = this
      show ?thesis
      proof (cases a')
        case Nil
        with True a have "y = CHR ''#''" by (auto simp: match_header_Some)
        with Nil a have "x # a = [x] @ ''#''" by simp
        then show ?thesis by blast
      next
        case (Cons z a'')
        with True a have "match_header (x # a) \<noteq> None" by (auto split: if_splits)
        then show ?thesis by simp
      qed
    qed
  qed
qed

lemma bold_pass_makes_no_header:
  "\<not> sublist ''#*'' s \<Longrightarrow> matches_somewhere match_header (sub_bold s)
     \<Longrightarrow> matches_somewhere match_header s"
proof (induction s rule: sub_bold.induct)
  case 1
  then show ?case by simp
next
  case (2 c cs)
  show ?case
  proof (cases "match_bold (c # cs)")
    case (Some br)
    obtain body r where "br = (body, r)" by (cases br)
    with Some have m: "match_bold (c # cs) = Some (body, r)" by simp
    then have s: "c # cs = ''**'' @ body @ ''**'' @ r" by (simp add: match_bold_Some)
    have nr: "\<not> sublist ''#*'' r"
    proof
      assume "sublist ''#*'' r"
      then have "sublist ''#*'' ((''**'' @ body @ ''**'') @ r)" by (rule sublist_behind)
      with "2.prems"(1) show False unfolding s by simp
    qed
    from "2.prems"(2) m have "matches_somewhere match_header (body @ sub_bold r)" by simp
    from header_split [OF this] show ?thesis
    proof (elim disjE exE)
      assume "matches_somewhere match_header body"
      then have "matches_somewhere match_header (body @ ''**'' @ r)" by (rule header_append)
      then show ?thesis unfolding s by (rule header_behind)
    next
      assume "matches_somewhere match_header (sub_bold r)"
      with "2.IH"(2) m nr have "matches_somewhere match_header r" by simp
      then have "matches_somewhere match_header ((''**'' @ body @ ''**'') @ r)" by (rule header_behind)
      then show ?thesis unfolding s by simp
    next
      fix a'
      assume "body = a' @ ''#''"
      then have "c # cs = (''**'' @ a') @ ''#*'' @ (''*'' @ r)" unfolding s by simp
      then have "sublist ''#*'' (c # cs)" unfolding sublist_def by blast
      with "2.prems"(1) show ?thesis by simp
    qed
  next
    case None
    from "2.prems"(1) have ncs: "\<not> sublist ''#*'' cs"
      using sublist_behind [of _ cs "[c]"] by auto
    from "2.prems"(2) None
    consider "match_header (c # sub_bold cs) \<noteq> None" | "matches_somewhere match_header (sub_bold cs)"
      by auto
    then show ?thesis
    proof cases
      case 2
      with "2.IH"(1) None ncs have "matches_somewhere match_header cs" by simp
      then show ?thesis by simp
    next
      case 1
      then obtain w rest where c: "c = CHR ''#''" and o: "sub_bold cs = CHR ''#'' # w # rest"
        and w: "py_isspace w"
        by (auto simp: match_header_Some)
      from sub_bold_first [OF o] "2.prems"(1) c obtain cs2
        where cs: "cs = CHR ''#'' # cs2" and o2: "sub_bold cs2 = w # rest"
        by (auto simp: sublist2_Cons)
      from sub_bold_first [OF o2] "2.prems"(1) c cs obtain cs3 where "cs2 = w # cs3"
        by (auto simp: sublist2_Cons)
      with c cs w have "match_header (c # cs) \<noteq> None" by simp
      then show ?thesis by simp
    qed
  qed
qed

lemma sub_bold_spans:
  "list_all (\<lambda>(body, piece). body \<noteq> [] \<and> CHR ''*'' \<notin> set body \<and> CHR ''*'' \<notin> set piece) spans \<Longrightarrow>
     sub_bold (concat (map (\<lambda>(body, piece). ''**'' @ body @ ''**'' @ piece) spans))
       = concat (map (\<lambda>(body, piece). body @ piece) spans)"
proof (induction spans)
  case Nil
  show ?case by simp
next
  case (Cons p spans)
  obtain body piece where p: "p = (body, piece)" by (cases p)
  let ?rest = "concat (map (\<lambda>(body, piece). ''**'' @ body @ ''**'' @ piece) spans)"
  from Cons.prems p have b: "body \<noteq> []" "CHR ''*'' \<notin> set body" and t: "CHR ''*'' \<notin> set piece"
    by simp_all
  have "match_bold (''**'' @ body @ ''**'' @ (piece @ ?rest)) = Some (body, piece @ ?rest)"
    unfolding match_bold_Some using b by simp
  then have "sub_bold (''**'' @ body @ ''**'' @ piece @ ?rest) = body @ sub_bold (piece @ ?rest)"
    by simp
  also have "sub_bold (piece @ ?rest) = piece @ sub_bold ?rest"
    using t by (rule sub_bold_plain)
  finally show ?case using Cons p by simp
qed

text \<open>
  For an input without a colon (so that neither the claim extraction nor the reasoning
  removal applies): if it has no three hash signs in a row, no three stars in a row, and
  no hash sign next to a star, the normalized text contains no header marker and no bold
  span; and if it has no hash sign and is made of star-free text and bold spans with
  non-empty star-free bodies, the normalized text is the whitespace-normalized text with
  every marker removed and every enclosed text kept.
\<close>

lemma markers_removed:
  "(CHR '':'' \<notin> set x \<and> \<not> sublist ''###'' x \<and> \<not> sublist ''***'' x
      \<and> \<not> sublist ''#*'' x \<and> \<not> sublist ''*#'' x
     \<longrightarrow> \<not> matches_somewhere match_header (clean_prediction_text x)
         \<and> \<not> matches_somewhere match_bold (clean_prediction_text x))
   \<and> (CHR '':'' \<notin> set x \<and> CHR ''#'' \<notin> set x \<and> CHR ''*'' \<notin> set pre
      \<and> list_all (\<lambda>(body, piece). body \<noteq> [] \<and> CHR ''*'' \<notin> set body \<and> CHR ''*'' \<notin> set piece) spans
      \<and> x = pre @ concat (map (\<lambda>(body, piece). ''**'' @ body @ ''**'' @ piece) spans)
     \<longrightarrow> clean_prediction_text x
           = py_join '' '' (py_split (pre @ concat (map (\<lambda>(body, piece). body @ piece) spans))))"
proof (intro conjI impI; elim conjE)
  assume a: "CHR '':'' \<notin> set x" "\<not> sublist ''###'' x" "\<not> sublist ''***'' x"
    "\<not> sublist ''#*'' x" "\<not> sublist ''*#'' x"
  let ?h = "sub_headers x"
  from a have c: "clean_prediction_text x = py_join '' '' (py_split (sub_bold ?h))"
    by (simp add: clean_no_colon)
  from a have h1: "\<not> matches_somewhere match_header ?h"
    by (simp add: header_pass_leaves_no_header)
  from a have h2: "\<not> sublist ''***'' ?h"
    by (simp add: header_pass_keeps_stars)
  from a have h3: "\<not> sublist ''#*'' ?h"
    by (simp add: header_pass_keeps_apart)
  from h1 h3 bold_pass_makes_no_header [of ?h]
  have "\<not> matches_somewhere match_header (sub_bold ?h)" by blast
  with header_collapse [of "sub_bold ?h"] c
  show "\<not> matches_somewhere match_header (clean_prediction_text x)" by auto
  from h2 have "\<not> matches_somewhere match_bold (sub_bold ?h)"
    by (rule bold_pass_leaves_no_span)
  with bold_collapse [of "sub_bold ?h"] c
  show "\<not> matches_somewhere match_bold (clean_prediction_text x)" by auto
next
  assume a: "CHR '':'' \<notin> set x" "CHR ''#'' \<notin> set x"
    and pre: "CHR ''*'' \<notin> set pre"
    and spans: "list_all (\<lambda>(body, piece). body \<noteq> [] \<and> CHR ''*'' \<notin> set body \<and> CHR ''*'' \<notin> set piece) spans"
    and x: "x = pre @ concat (map (\<lambda>(body, piece). ''**'' @ body @ ''**'' @ piece) spans)"
  from a have c: "clean_prediction_text x = py_join '' '' (py_split (sub_bold x))"
    by (simp add: clean_no_colon sub_headers_plain)
  have "sub_bold x = pre @ sub_bold (concat (map (\<lambda>(body, piece). ''**'' @ body @ ''**'' @ piece) spans))"
    unfolding x using pre by (rule sub_bold_plain)
  also have "sub_bold (concat (map (\<lambda>(body, piece). ''**'' @ body @ ''**'' @ piece) spans))
               = concat (map (\<lambda>(body, piece). body @ piece) spans)"
    using spans by (rule sub_bold_spans)
  finally show "clean_prediction_text x
           = py_join '' '' (py_split (pre @ concat (map (\<lambda>(body, piece). body @ piece) spans)))"
    using c by simp
qed

text \<open>A header before a bold title, and two bold spans in a sentence.\<close>

lemma markers_removed_examples:
  "\<not> matches_somewhere match_header (clean_prediction_text ''## **Title** #1  ## x'')
   \<and> \<not> matches_somewhere match_bold (clean_prediction_text ''## **Title** #1  ## x'')
   \<and> clean_prediction_text ''the **total**  is **5** now'' = ''the total is 5 now''"
  using markers_removed [of "''## **Title** #1  ## x''"]
    markers_removed [of "''the **total**  is **5** now''" "''the ''" "[(''total'', ''  is ''), (''5'', '' now'')]"]
  by (simp add: sublist_code py_split_def py_isspace_def)

end
